theory Spec2Isabelle
  imports
    Complex_Main
    "HOL-Library.AList"
    "HOL-Library.Char_ord"
    "HOL-Library.List_Lexorder"
    "HOL-Library.Product_Lexorder"
begin

section \<open>Floating-point cells\<close>

text \<open>
  A numeric cell of a pandas column is a float64. The model keeps the three special values
  the pipeline can produce or meet (a missing value and the two infinities of a division by
  zero) and takes every other value as a real number: rounding and the sign of zero are
  not modelled.
\<close>

datatype fl = Fin real | PInf | NInf | NaN

fun fneg :: "fl \<Rightarrow> fl" where
  "fneg (Fin a) = Fin (- a)"
| "fneg PInf = NInf"
| "fneg NInf = PInf"
| "fneg NaN = NaN"

fun fadd :: "fl \<Rightarrow> fl \<Rightarrow> fl" where
  "fadd NaN _ = NaN"
| "fadd _ NaN = NaN"
| "fadd (Fin a) (Fin b) = Fin (a + b)"
| "fadd PInf NInf = NaN"
| "fadd NInf PInf = NaN"
| "fadd PInf _ = PInf"
| "fadd _ PInf = PInf"
| "fadd NInf _ = NInf"
| "fadd _ NInf = NInf"

definition fsub :: "fl \<Rightarrow> fl \<Rightarrow> fl" where
  "fsub a b = fadd a (fneg b)"

text \<open>The sign of an infinite product or quotient; a zero factor gives \<open>NaN\<close>.\<close>

definition inf_signed :: "real \<Rightarrow> fl" where
  "inf_signed s = (if s = 0 then NaN else if 0 < s then PInf else NInf)"

fun fmul :: "fl \<Rightarrow> fl \<Rightarrow> fl" where
  "fmul NaN _ = NaN"
| "fmul _ NaN = NaN"
| "fmul (Fin a) (Fin b) = Fin (a * b)"
| "fmul (Fin a) PInf = inf_signed a"
| "fmul (Fin a) NInf = inf_signed (- a)"
| "fmul PInf (Fin b) = inf_signed b"
| "fmul NInf (Fin b) = inf_signed (- b)"
| "fmul PInf PInf = PInf"
| "fmul NInf NInf = PInf"
| "fmul PInf NInf = NInf"
| "fmul NInf PInf = NInf"

text \<open>
  numpy's true division: a finite value over zero is an infinity of the value's sign,
  zero over zero is \<open>NaN\<close>; a finite value over an infinity is zero.
\<close>

fun fdiv :: "fl \<Rightarrow> fl \<Rightarrow> fl" where
  "fdiv NaN _ = NaN"
| "fdiv _ NaN = NaN"
| "fdiv (Fin a) (Fin b) = (if b = 0 then inf_signed a else Fin (a / b))"
| "fdiv (Fin a) PInf = Fin 0"
| "fdiv (Fin a) NInf = Fin 0"
| "fdiv PInf (Fin b) = (if 0 \<le> b then PInf else NInf)"
| "fdiv NInf (Fin b) = (if 0 \<le> b then NInf else PInf)"
| "fdiv PInf PInf = NaN"
| "fdiv PInf NInf = NaN"
| "fdiv NInf PInf = NaN"
| "fdiv NInf NInf = NaN"

text \<open>Comparisons: every comparison with \<open>NaN\<close> is false.\<close>

fun flt :: "fl \<Rightarrow> fl \<Rightarrow> bool" where
  "flt NaN _ = False"
| "flt _ NaN = False"
| "flt (Fin a) (Fin b) = (a < b)"
| "flt PInf _ = False"
| "flt _ PInf = True"
| "flt NInf NInf = False"
| "flt NInf _ = True"
| "flt _ NInf = False"

definition fgt :: "fl \<Rightarrow> fl \<Rightarrow> bool" where
  "fgt a b = flt b a"

definition feq :: "fl \<Rightarrow> fl \<Rightarrow> bool" where
  "feq a b = (a \<noteq> NaN \<and> a = b)"

definition fle :: "fl \<Rightarrow> fl \<Rightarrow> bool" where
  "fle a b = (flt a b \<or> feq a b)"

definition isnan :: "fl \<Rightarrow> bool" where
  "isnan a = (a = NaN)"

text \<open>The largest float64, \<open>(2 - 2\<^sup>-\<^sup>5\<^sup>2) * 2\<^sup>1\<^sup>0\<^sup>2\<^sup>3\<close>.\<close>

definition float_max :: real where
  "float_max = (2 ^ 53 - 1) * 2 ^ 971"

text \<open>\<^verbatim>\<open>np.nan_to_num\<close>: \<open>NaN\<close> becomes 0, an infinity the largest float of its sign.\<close>

fun nan_to_num :: "fl \<Rightarrow> fl" where
  "nan_to_num NaN = Fin 0"
| "nan_to_num PInf = Fin float_max"
| "nan_to_num NInf = Fin (- float_max)"
| "nan_to_num (Fin a) = Fin a"

text \<open>\<^verbatim>\<open>Series.clip(lower, upper)\<close>: a missing value stays missing.\<close>

definition clip :: "fl \<Rightarrow> fl \<Rightarrow> fl \<Rightarrow> fl" where
  "clip lower upper x =
     (if isnan x then NaN else if flt x lower then lower else if fgt x upper then upper else x)"

text \<open>\<^verbatim>\<open>Series.fillna(v)\<close> on one cell.\<close>

definition fillna :: "fl \<Rightarrow> fl \<Rightarrow> fl" where
  "fillna v x = (if isnan x then v else x)"

text \<open>
  Python's \<^verbatim>\<open>x or d\<close> and \<^verbatim>\<open>x if x else d\<close> on a float: only zero is falsy, \<open>NaN\<close> is
  truthy.
\<close>

definition truthy :: "fl \<Rightarrow> bool" where
  "truthy x = (x \<noteq> Fin 0)"

definition py_or :: "fl \<Rightarrow> fl \<Rightarrow> fl" where
  "py_or x d = (if truthy x then x else d)"

section \<open>Dates\<close>

text \<open>
  The \<^verbatim>\<open>Date\<close> column holds calendar dates (the time of day is not modelled, nor is the
  missing date \<^verbatim>\<open>NaT\<close>). Dates are ordered by their proleptic Gregorian ordinal, computed
  as Python's \<^verbatim>\<open>datetime\<close> does.
\<close>

record date =
  year :: int
  month :: int
  day :: int

definition is_leap :: "int \<Rightarrow> bool" where
  "is_leap y = (y mod 4 = 0 \<and> (y mod 100 \<noteq> 0 \<or> y mod 400 = 0))"

definition days_before_year :: "int \<Rightarrow> int" where
  "days_before_year y = (y - 1) * 365 + (y - 1) div 4 - (y - 1) div 100 + (y - 1) div 400"

definition days_before_month :: "int \<Rightarrow> int \<Rightarrow> int" where
  "days_before_month y m =
     [0, 31, 59, 90, 120, 151, 181, 212, 243, 273, 304, 334] ! nat (m - 1)
       + (if 2 < m \<and> is_leap y then 1 else 0)"

definition ordinal :: "date \<Rightarrow> int" where
  "ordinal d = days_before_year (year d) + days_before_month (year d) (month d) + day d"

definition dayofyear :: "date \<Rightarrow> int" where
  "dayofyear d = days_before_month (year d) (month d) + day d"

text \<open>Monday is 0, Sunday is 6.\<close>

definition weekday :: "date \<Rightarrow> int" where
  "weekday d = (ordinal d + 6) mod 7"

section \<open>Errors and data frames\<close>

datatype error =
    ValueError string
  | TypeError string
  | KeyError string
  | AttributeError string

definition bind_err :: "error + 'a \<Rightarrow> ('a \<Rightarrow> error + 'b) \<Rightarrow> error + 'b" where
  "bind_err r f = (case r of Inl e \<Rightarrow> Inl e | Inr x \<Rightarrow> f x)"

text \<open>
  A column has one dtype. A frame is its row count with its columns in order, by name;
  every table carries the default \<^verbatim>\<open>RangeIndex\<close>, so a row is identified by its position.
\<close>

datatype column =
    NumCol "fl list"
  | IntCol "int list"
  | StrCol "string list"
  | DateCol "date list"
  | BoolCol "bool list"

fun col_len :: "column \<Rightarrow> nat" where
  "col_len (NumCol xs) = length xs"
| "col_len (IntCol xs) = length xs"
| "col_len (StrCol xs) = length xs"
| "col_len (DateCol xs) = length xs"
| "col_len (BoolCol xs) = length xs"

text \<open>Positional selection of rows of one column (\<^verbatim>\<open>take\<close>), and a slice of it.\<close>

fun take_col :: "nat list \<Rightarrow> column \<Rightarrow> column" where
  "take_col idx (NumCol xs) = NumCol (map (\<lambda>i. xs ! i) idx)"
| "take_col idx (IntCol xs) = IntCol (map (\<lambda>i. xs ! i) idx)"
| "take_col idx (StrCol xs) = StrCol (map (\<lambda>i. xs ! i) idx)"
| "take_col idx (DateCol xs) = DateCol (map (\<lambda>i. xs ! i) idx)"
| "take_col idx (BoolCol xs) = BoolCol (map (\<lambda>i. xs ! i) idx)"

record frame =
  nrows :: nat
  cols :: "(string \<times> column) list"

definition columns :: "frame \<Rightarrow> string list" where
  "columns df = map fst (cols df)"

text \<open>\<^verbatim>\<open>df[name]\<close>: a missing column is a \<^verbatim>\<open>KeyError\<close>.\<close>

definition get_col :: "frame \<Rightarrow> string \<Rightarrow> error + column" where
  "get_col df name =
     (case map_of (cols df) name of None \<Rightarrow> Inl (KeyError name) | Some c \<Rightarrow> Inr c)"

text \<open>A column read for arithmetic: integers are promoted to floats.\<close>

definition as_float :: "column \<Rightarrow> error + fl list" where
  "as_float c =
     (case c of
        NumCol xs \<Rightarrow> Inr xs
      | IntCol ks \<Rightarrow> Inr (map (\<lambda>k. Fin (real_of_int k)) ks)
      | _ \<Rightarrow> Inl (TypeError ''unsupported operand type''))"

definition get_num :: "frame \<Rightarrow> string \<Rightarrow> error + fl list" where
  "get_num df name = bind_err (get_col df name) as_float"

text \<open>
  \<^verbatim>\<open>df[name] = values\<close>: an existing column is replaced where it stands, a new one is
  appended; values of the wrong length are a \<^verbatim>\<open>ValueError\<close>.
\<close>

definition with_col :: "string \<Rightarrow> column \<Rightarrow> frame \<Rightarrow> frame" where
  "with_col name c df = df\<lparr>cols := AList.update name c (cols df)\<rparr>"

definition set_col :: "frame \<Rightarrow> string \<Rightarrow> column \<Rightarrow> error + frame" where
  "set_col df name c =
     (if col_len c \<noteq> nrows df
      then Inl (ValueError ''Length of values does not match length of index'')
      else Inr (with_col name c df))"

text \<open>\<^verbatim>\<open>df[names]\<close>: the listed columns in the listed order.\<close>

fun select_cols :: "frame \<Rightarrow> string list \<Rightarrow> error + (string \<times> column) list" where
  "select_cols df [] = Inr []"
| "select_cols df (name # names) =
     bind_err (get_col df name) (\<lambda>c.
     bind_err (select_cols df names) (\<lambda>rest. Inr ((name, c) # rest)))"

definition getitem :: "frame \<Rightarrow> string list \<Rightarrow> error + frame" where
  "getitem df names = bind_err (select_cols df names) (\<lambda>cs. Inr (df\<lparr>cols := cs\<rparr>))"

text \<open>\<^verbatim>\<open>df.drop(columns=[name])\<close>.\<close>

definition drop_col :: "frame \<Rightarrow> string \<Rightarrow> error + frame" where
  "drop_col df name =
     (if name \<in> set (columns df)
      then Inr (df\<lparr>cols := AList.delete name (cols df)\<rparr>)
      else Inl (KeyError name))"

text \<open>Rows selected by position, in the order of the positions.\<close>

definition take_rows :: "nat list \<Rightarrow> frame \<Rightarrow> frame" where
  "take_rows idx df =
     \<lparr>nrows = length idx, cols = map (\<lambda>(name, c). (name, take_col idx c)) (cols df)\<rparr>"

text \<open>
  Python's slice bound on a sequence of length \<open>n\<close>: a negative bound counts from the
  end, and every bound is cut to \<open>0..n\<close>.
\<close>

definition slice_bound :: "int \<Rightarrow> nat \<Rightarrow> nat" where
  "slice_bound k n = (if k < 0 then nat (max 0 (int n + k)) else min (nat k) n)"

text \<open>\<^verbatim>\<open>df.iloc[:k]\<close> and \<^verbatim>\<open>df.iloc[k:]\<close>.\<close>

definition iloc_upto :: "int \<Rightarrow> frame \<Rightarrow> frame" where
  "iloc_upto k df = take_rows [0..<slice_bound k (nrows df)] df"

definition iloc_from :: "int \<Rightarrow> frame \<Rightarrow> frame" where
  "iloc_from k df = take_rows [slice_bound k (nrows df)..<nrows df] df"

subsection \<open>Sorting\<close>

text \<open>
  The sort key of a cell. Numbers sort by value with the infinities at the ends and the
  missing values last, strings by code point, dates by ordinal. The sort is modelled as
  stable; no property below depends on the order of rows with equal keys.
\<close>

type_synonym sort_key = "nat \<times> real \<times> string"

fun fl_key :: "fl \<Rightarrow> sort_key" where
  "fl_key NInf = (0, 0, [])"
| "fl_key (Fin x) = (1, x, [])"
| "fl_key PInf = (2, 0, [])"
| "fl_key NaN = (3, 0, [])"

fun col_key :: "column \<Rightarrow> nat \<Rightarrow> sort_key" where
  "col_key (NumCol xs) i = fl_key (xs ! i)"
| "col_key (IntCol xs) i = (1, real_of_int (xs ! i), [])"
| "col_key (StrCol xs) i = (1, 0, xs ! i)"
| "col_key (DateCol xs) i = (1, real_of_int (ordinal (xs ! i)), [])"
| "col_key (BoolCol xs) i = (1, (if xs ! i then 1 else 0), [])"

text \<open>\<^verbatim>\<open>df.sort_values(by)\<close>, ascending: the rows are rearranged by the keys of the listed columns.\<close>

definition sort_values :: "string list \<Rightarrow> frame \<Rightarrow> error + frame" where
  "sort_values by df =
     bind_err (select_cols df by) (\<lambda>keys.
       Inr (take_rows (sort_key (\<lambda>i. map (\<lambda>(name, c). col_key c i) keys) [0..<nrows df]) df))"

section \<open>Series helpers\<close>

text \<open>\<^verbatim>\<open>np.nanmin\<close> and \<^verbatim>\<open>np.nanmax\<close>: missing values are skipped, an array of missing values
  only gives \<open>NaN\<close> (with a warning), an empty array raises.\<close>

definition fmin2 :: "fl \<Rightarrow> fl \<Rightarrow> fl" where
  "fmin2 a b = (if flt b a then b else a)"

definition fmax2 :: "fl \<Rightarrow> fl \<Rightarrow> fl" where
  "fmax2 a b = (if flt a b then b else a)"

definition dropna :: "fl list \<Rightarrow> fl list" where
  "dropna values = filter (\<lambda>v. \<not> isnan v) values"

definition nanmin :: "fl list \<Rightarrow> error + fl" where
  "nanmin values =
     (if values = []
      then Inl (ValueError ''zero-size array to reduction operation fmin which has no identity'')
      else Inr (case dropna values of [] \<Rightarrow> NaN | x # xs \<Rightarrow> fold fmin2 xs x))"

definition nanmax :: "fl list \<Rightarrow> error + fl" where
  "nanmax values =
     (if values = []
      then Inl (ValueError ''zero-size array to reduction operation fmax which has no identity'')
      else Inr (case dropna values of [] \<Rightarrow> NaN | x # xs \<Rightarrow> fold fmax2 xs x))"

definition fsum :: "fl list \<Rightarrow> fl" where
  "fsum values = foldr fadd values (Fin 0)"

text \<open>
  \<^verbatim>\<open>Series.quantile(q)\<close> with linear interpolation: the missing values are dropped, the
  rest sorted, and the value at the fractional position \<open>(m - 1) * q\<close> is interpolated
  between its two neighbours. No observation gives \<open>NaN\<close>.
\<close>

definition quantile :: "fl list \<Rightarrow> real \<Rightarrow> fl" where
  "quantile values q =
     (let obs = sort_key fl_key (dropna values); m = length obs
      in if m = 0 then NaN
         else let pos = real (m - 1) * q;
                  lo = nat \<lfloor>pos\<rfloor>;
                  hi = min (lo + 1) (m - 1);
                  frac = pos - real lo
              in fadd (obs ! lo) (fmul (fsub (obs ! hi) (obs ! lo)) (Fin frac)))"

text \<open>
  \<^verbatim>\<open>s.rolling(w, min_periods=mp).mean()\<close>: at position \<open>p\<close> the window is the \<open>w\<close> values
  ending at \<open>p\<close> (fewer at the start of the series); the mean is taken over its
  observations, and is missing when there are fewer than \<open>mp\<close> of them.
\<close>

definition window :: "nat \<Rightarrow> nat \<Rightarrow> 'a list \<Rightarrow> 'a list" where
  "window w p s = drop (Suc p - w) (take (Suc p) s)"

definition fmean :: "fl list \<Rightarrow> fl" where
  "fmean values = fdiv (fsum values) (Fin (real (length values)))"

definition rolling_mean :: "nat \<Rightarrow> nat \<Rightarrow> fl list \<Rightarrow> fl list" where
  "rolling_mean w min_periods s =
     map (\<lambda>p. let obs = dropna (window w p s)
              in if length obs < min_periods then NaN else fmean obs)
         [0..<length s]"

text \<open>
  \<^verbatim>\<open>s.pct_change()\<close>: the change relative to the previous value, missing at the first
  position (the forward fill of missing values that older pandas versions apply first is
  not modelled).
\<close>

definition pct_change :: "fl list \<Rightarrow> fl list" where
  "pct_change s =
     map (\<lambda>p. if p = 0 then NaN else fsub (fdiv (s ! p) (s ! (p - 1))) (Fin 1)) [0..<length s]"

text \<open>
  \<^verbatim>\<open>_days_since_last_sale\<close>: the loop over the values of one group, with its counter.
\<close>

fun days_since_loop :: "int \<Rightarrow> fl list \<Rightarrow> int list" where
  "days_since_loop counter [] = []"
| "days_since_loop counter (value # values) =
     (let counter' = (if fgt value (Fin 0) then 0 else counter + 1)
      in counter' # days_since_loop counter' values)"

definition days_since_last_sale :: "fl list \<Rightarrow> int list" where
  "days_since_last_sale values = days_since_loop 0 values"

subsection \<open>Grouping\<close>

text \<open>
  \<^verbatim>\<open>df.groupby(by, sort=False)\<close>: the group key of every row. The identifier columns are
  text or integer columns; keys of another dtype (where pandas drops the rows with a
  missing key) are not modelled. A missing key column is a \<^verbatim>\<open>KeyError\<close>.
\<close>

fun is_id_col :: "column \<Rightarrow> bool" where
  "is_id_col (StrCol _) = True"
| "is_id_col (IntCol _) = True"
| "is_id_col _ = False"

type_synonym group_key = "sort_key list"

definition groupby :: "frame \<Rightarrow> string list \<Rightarrow> error + group_key list" where
  "groupby df by =
     bind_err (select_cols df by) (\<lambda>keys.
       if list_all (\<lambda>(name, c). is_id_col c) keys
       then Inr (map (\<lambda>i. map (\<lambda>(name, c). col_key c i) keys) [0..<nrows df])
       else Inl (TypeError ''group keys of this dtype are not modelled''))"

text \<open>
  \<^verbatim>\<open>grouped[col].transform(f)\<close>: \<open>f\<close> is applied to the values of each group, taken in row
  order, and every row receives the result at its own position within its group (the
  number of earlier rows of the same group).
\<close>

definition group_indices :: "'k list \<Rightarrow> 'k \<Rightarrow> nat list" where
  "group_indices keys k = filter (\<lambda>j. keys ! j = k) [0..<length keys]"

definition group_rank :: "'k list \<Rightarrow> nat \<Rightarrow> nat" where
  "group_rank keys i = length (filter (\<lambda>j. keys ! j = keys ! i) [0..<i])"

definition gb_transform :: "'k list \<Rightarrow> 'a list \<Rightarrow> ('a list \<Rightarrow> 'b list) \<Rightarrow> 'b list" where
  "gb_transform keys vals f =
     map (\<lambda>i. f (map (\<lambda>j. vals ! j) (group_indices keys (keys ! i))) ! group_rank keys i)
         [0..<length vals]"

section \<open>The pipeline\<close>

subsection \<open>In-place column assignments\<close>

text \<open>
  \<^verbatim>\<open>engineer_features\<close> and \<^verbatim>\<open>label_dead_stock\<close> are sequences of assignments
  \<^verbatim>\<open>df[name] = ...\<close> to the frame they are given. Each assignment either raises, leaving the
  frame as the earlier assignments made it, or stores its column. The result of such a
  function is the final contents of the frame object and the error raised, if any.
\<close>

type_synonym step = "frame \<Rightarrow> error + frame"

fun run_steps :: "step list \<Rightarrow> frame \<Rightarrow> frame \<times> error option" where
  "run_steps [] df = (df, None)"
| "run_steps (s # ss) df =
     (case s df of Inl e \<Rightarrow> (df, Some e) | Inr df' \<Rightarrow> run_steps ss df')"

definition assign :: "string \<Rightarrow> (frame \<Rightarrow> error + column) \<Rightarrow> step" where
  "assign name rhs df = bind_err (rhs df) (set_col df name)"

definition transform ::
  "'k list \<Rightarrow> string \<Rightarrow> (fl list \<Rightarrow> 'b list) \<Rightarrow> ('b list \<Rightarrow> column) \<Rightarrow> frame \<Rightarrow> error + column" where
  "transform grouped name f mk df =
     bind_err (get_num df name) (\<lambda>s. Inr (mk (gb_transform grouped s f)))"

text \<open>Elementwise arithmetic of two columns of the frame.\<close>

definition binop ::
  "(fl \<Rightarrow> fl \<Rightarrow> fl) \<Rightarrow> string \<Rightarrow> string \<Rightarrow> frame \<Rightarrow> error + fl list" where
  "binop f a b df =
     bind_err (get_num df a) (\<lambda>xs. bind_err (get_num df b) (\<lambda>ys. Inr (map2 f xs ys)))"

definition eps :: fl where
  "eps = Fin (1 / 1000)"

subsection \<open>Feature engineering\<close>

text \<open>
  The two normalisations of \<^verbatim>\<open>engineer_features\<close>: by the largest value (or by 1 when
  that is zero), and by minimum and range (or by 1 when the range is zero).
\<close>

definition max_normalized :: "fl list \<Rightarrow> error + fl list" where
  "max_normalized values =
     bind_err (nanmax values) (\<lambda>m.
       let max_val = py_or m (Fin 1)
       in Inr (map (\<lambda>v. nan_to_num (fdiv v max_val)) values))"

definition minmax_normalized :: "fl list \<Rightarrow> error + fl list" where
  "minmax_normalized values =
     bind_err (nanmin values) (\<lambda>min_val.
     bind_err (nanmax values) (\<lambda>m.
       let span = fsub m min_val
       in Inr (map (\<lambda>v. nan_to_num (fdiv (fsub v min_val) (if truthy span then span else Fin 1)))
                   values)))"

text \<open>The body of the normalisation loop, for one column name.\<close>

definition normalize_step :: "string \<Rightarrow> step" where
  "normalize_step col df =
     (let norm_col = col @ ''_norm''
      in bind_err (get_num df col) (\<lambda>values.
           if col = ''sell_through_rate''
           then bind_err (max_normalized values) (\<lambda>normed. set_col df norm_col (NumCol normed))
           else bind_err (minmax_normalized values) (\<lambda>normed. set_col df norm_col (NumCol normed))))"

definition engineer_steps :: "group_key list \<Rightarrow> step list" where
  "engineer_steps grouped =
     [ assign ''rolling_sales_7'' (transform grouped ''Units Sold'' (rolling_mean 7 1) NumCol),
       assign ''rolling_sales_30'' (transform grouped ''Units Sold'' (rolling_mean 30 1) NumCol),
       assign ''rolling_inventory_30''
         (transform grouped ''Inventory Level'' (rolling_mean 30 1) NumCol),
       assign ''sell_through_rate'' (\<lambda>df.
         bind_err (get_num df ''rolling_sales_30'') (\<lambda>rs30.
         bind_err (get_num df ''rolling_inventory_30'') (\<lambda>ri30.
           Inr (NumCol (map2 fdiv rs30 (map (\<lambda>x. fadd x eps) ri30)))))),
       assign ''days_since_sale'' (transform grouped ''Units Sold'' days_since_last_sale IntCol),
       assign ''inventory_trend''
         (transform grouped ''Inventory Level'' (\<lambda>s. map (fillna (Fin 0)) (pct_change s)) NumCol),
       assign ''forecast_error'' (\<lambda>df.
         bind_err (binop fsub ''Units Sold'' ''Demand Forecast'' df) (\<lambda>num.
         bind_err (get_num df ''Demand Forecast'') (\<lambda>fc.
           Inr (NumCol (map2 fdiv num (map (\<lambda>x. fadd x eps) fc)))))),
       assign ''order_gap'' (\<lambda>df.
         bind_err (binop fsub ''Units Ordered'' ''Units Sold'' df) (\<lambda>gap. Inr (NumCol gap)))
     ] @ map normalize_step [''rolling_inventory_30'', ''days_since_sale'', ''sell_through_rate'']"

definition engineer_features :: "frame \<Rightarrow> frame \<times> error option" where
  "engineer_features df =
     (case groupby df [''Store ID'', ''Product ID''] of
        Inl e \<Rightarrow> (df, Some e)
      | Inr grouped \<Rightarrow> run_steps (engineer_steps grouped) df)"

subsection \<open>Labelling\<close>

text \<open>The six boolean series of \<^verbatim>\<open>label_dead_stock\<close> and their combination, as an integer
  column.\<close>

definition dead_stock_rule :: "frame \<Rightarrow> error + column" where
  "dead_stock_rule df =
     bind_err (get_num df ''rolling_inventory_30'') (\<lambda>ri30.
     let high_inventory = map (\<lambda>x. fgt x (quantile ri30 (45 / 100))) ri30 in
     bind_err (get_num df ''rolling_sales_7'') (\<lambda>rs7.
     let slow_turnover = map2 (\<lambda>a b. fle a (fmul (Fin (1 / 10)) b)) rs7 ri30 in
     bind_err (get_num df ''sell_through_rate'') (\<lambda>st.
     let weak_sell_through = map (\<lambda>x. flt x (Fin (3 / 10))) st in
     bind_err (binop fsub ''Inventory Level'' ''Demand Forecast'' df) (\<lambda>excess.
     let overstock_vs_forecast = map (\<lambda>x. fgt x (Fin 50)) excess in
     bind_err (get_num df ''Units Sold'') (\<lambda>us.
     let no_sales_today = map (\<lambda>x. feq x (Fin 0)) us;
         low_units_sold = map (\<lambda>x. fle x (Fin 5)) us
     in Inr (IntCol (map (\<lambda>b. if b then 1 else 0)
          (map2 (\<or>)
             (map2 (\<or>)
                (map2 (\<or>) (map2 (\<and>) high_inventory slow_turnover)
                           (map2 (\<and>) overstock_vs_forecast weak_sell_through))
                (map2 (\<and>) high_inventory no_sales_today))
             (map2 (\<and>) high_inventory low_units_sold)))))))))"

definition risk_score_rule :: "frame \<Rightarrow> error + column" where
  "risk_score_rule df =
     bind_err (get_num df ''rolling_inventory_30_norm'') (\<lambda>inv_norm.
     bind_err (get_num df ''sell_through_rate_norm'') (\<lambda>st_norm.
     bind_err (get_num df ''rolling_sales_7'') (\<lambda>rs7.
     bind_err (get_num df ''rolling_inventory_30'') (\<lambda>ri30.
     let velocity = map (\<lambda>x. nan_to_num (fsub (Fin 1) (clip (Fin 0) (Fin 1) x)))
                        (map2 fdiv rs7 (map (\<lambda>x. fadd x eps) ri30))
     in Inr (NumCol (map (clip (Fin 0) (Fin 1))
          (map2 fadd
             (map2 fadd (map (fmul (Fin (4 / 10))) inv_norm)
                        (map (\<lambda>x. fmul (Fin (3 / 10)) (fsub (Fin 1) x)) st_norm))
             (map (fmul (Fin (3 / 10))) velocity))))))))"

definition label_dead_stock :: "frame \<Rightarrow> frame \<times> error option" where
  "label_dead_stock df =
     run_steps [assign ''dead_stock_label'' dead_stock_rule,
                assign ''risk_score'' risk_score_rule] df"

subsection \<open>Loading\<close>

text \<open>
  What pandas does with files and with date strings is outside the repository:
  \<^verbatim>\<open>pd.read_csv(path, parse_dates=["Date"])\<close> and \<^verbatim>\<open>pd.to_datetime\<close> are parameters, each
  returning its result or the error it raises.
\<close>

record env =
  read_csv :: "string \<Rightarrow> error + frame"
  to_datetime :: "column \<Rightarrow> error + column"

text \<open>The argument of \<^verbatim>\<open>load_data\<close>: a path, a table, or a value of another type (with the
  name of that type).\<close>

datatype 'table source = FromPath string | FromTable 'table | Unsupported string

definition missing_date_msg :: string where
  "missing_date_msg = ''DataFrame must include a '' @ [CHR 0x27] @ ''Date'' @ [CHR 0x27] @ '' column.''"

text \<open>The work of \<^verbatim>\<open>load_data\<close> on its own copy of a table: the date column is parsed or
  its absence reported; then the rows are sorted (and the index reset, which is the
  identity on positions).\<close>

definition parse_date_step :: "env \<Rightarrow> step" where
  "parse_date_step env df =
     (if ''Date'' \<in> set (columns df)
      then bind_err (get_col df ''Date'') (\<lambda>c.
           bind_err (to_datetime env c) (set_col df ''Date''))
      else Inl (ValueError missing_date_msg))"

definition sort_step :: step where
  "sort_step df = sort_values [''Store ID'', ''Product ID'', ''Date''] df"

definition load_data :: "env \<Rightarrow> frame source \<Rightarrow> error + frame" where
  "load_data env source =
     (case source of
        FromPath path \<Rightarrow> bind_err (read_csv env path) sort_step
      | FromTable table \<Rightarrow> bind_err (parse_date_step env table) sort_step
      | Unsupported ty \<Rightarrow> Inl (TypeError (''Unsupported data source type: '' @ ty)))"

subsection \<open>Assembling the dataset\<close>

record PreparedData =
  features :: frame
  labels :: column
  raw :: frame

definition NUMERIC_FEATURES :: "string list" where
  "NUMERIC_FEATURES =
     [''Inventory Level'', ''Units Sold'', ''Units Ordered'', ''Demand Forecast'', ''Price'',
      ''Discount'', ''Competitor Pricing'']"

definition CATEGORICAL_FEATURES :: "string list" where
  "CATEGORICAL_FEATURES =
     [''Store ID'', ''Product ID'', ''Category'', ''Region'', ''Weather Condition'',
      ''Seasonality'']"

definition BOOLEAN_FEATURES :: "string list" where
  "BOOLEAN_FEATURES = [''Holiday/Promotion'']"

definition feature_cols :: "string list" where
  "feature_cols =
     ''Date'' # NUMERIC_FEATURES @ BOOLEAN_FEATURES @ CATEGORICAL_FEATURES @
     [''rolling_sales_7'', ''rolling_sales_30'', ''rolling_inventory_30'', ''sell_through_rate'',
      ''days_since_sale'', ''inventory_trend'', ''forecast_error'', ''order_gap'', ''risk_score'']"

text \<open>The \<^verbatim>\<open>.dt\<close> accessor exists on a date column only.\<close>

definition dt :: "frame \<Rightarrow> string \<Rightarrow> error + date list" where
  "dt df name =
     bind_err (get_col df name) (\<lambda>c.
       case c of DateCol ds \<Rightarrow> Inr ds
       | _ \<Rightarrow> Inl (AttributeError ''Can only use .dt accessor with datetimelike values''))"

text \<open>The second half of \<^verbatim>\<open>prepare_dataset\<close>: the three views, each a copy.\<close>

definition assemble :: "frame \<Rightarrow> error + PreparedData" where
  "assemble df =
     bind_err (getitem df feature_cols) (\<lambda>f0.
     bind_err (dt f0 ''Date'') (\<lambda>ds0.
     bind_err (set_col f0 ''day_of_year'' (IntCol (map dayofyear ds0))) (\<lambda>f1.
     bind_err (dt f1 ''Date'') (\<lambda>ds1.
     bind_err (set_col f1 ''month'' (IntCol (map month ds1))) (\<lambda>f2.
     bind_err (dt f2 ''Date'') (\<lambda>ds2.
     bind_err (set_col f2 ''is_weekend'' (BoolCol (map (\<lambda>d. 5 \<le> weekday d) ds2))) (\<lambda>f3.
     bind_err (drop_col f3 ''Date'') (\<lambda>f4.
     bind_err (get_col df ''dead_stock_label'') (\<lambda>lab.
       Inr \<lparr>features = f4, labels = lab, raw = df\<rparr>)))))))))"

definition prepare_dataset :: "env \<Rightarrow> frame source \<Rightarrow> error + PreparedData" where
  "prepare_dataset env source =
     bind_err (load_data env source) (\<lambda>df0.
       case engineer_features df0 of
         (df1, Some e) \<Rightarrow> Inl e
       | (df1, None) \<Rightarrow>
           (case label_dead_stock df1 of
              (df2, Some e) \<Rightarrow> Inl e
            | (df2, None) \<Rightarrow> assemble df2))"

subsection \<open>Chronological split\<close>

text \<open>
  \<^verbatim>\<open>assign(dead_stock=data.labels)\<close> aligns the series with the frame by index. Both carry
  a \<^verbatim>\<open>RangeIndex\<close>, so a longer series is cut and a shorter one is filled with missing
  values, which turns an integer column into floats; a missing value in a column of
  another dtype is not modelled.
\<close>

definition reindex :: "nat \<Rightarrow> column \<Rightarrow> error + column" where
  "reindex n c =
     (if n \<le> col_len c then Inr (take_col [0..<n] c)
      else case c of
             NumCol xs \<Rightarrow> Inr (NumCol (xs @ replicate (n - length xs) NaN))
           | IntCol ks \<Rightarrow>
               Inr (NumCol (map (\<lambda>k. Fin (real_of_int k)) ks @ replicate (n - length ks) NaN))
           | _ \<Rightarrow> Inl (TypeError ''missing values of this dtype are not modelled''))"

text \<open>Python's \<^verbatim>\<open>int(x)\<close> on a float rounds towards zero.\<close>

definition py_int :: "real \<Rightarrow> int" where
  "py_int x = (if 0 \<le> x then \<lfloor>x\<rfloor> else \<lceil>x\<rceil>)"

text \<open>The first half of \<^verbatim>\<open>train_test_split\<close>: the frames \<^verbatim>\<open>train_df\<close> and \<^verbatim>\<open>test_df\<close>.\<close>

definition chrono_frames :: "PreparedData \<Rightarrow> real \<Rightarrow> error + frame \<times> frame" where
  "chrono_frames data test_size =
     bind_err (get_col (raw data) ''Date'') (\<lambda>dates.
     bind_err (reindex (nrows (features data)) (labels data)) (\<lambda>lab.
     bind_err (set_col (features data) ''dead_stock'' lab) (\<lambda>d1.
     bind_err (set_col d1 ''Date'' dates) (\<lambda>d2.
     bind_err (sort_values [''Date''] d2) (\<lambda>df.
       let split_idx = py_int (real (nrows df) * (1 - test_size))
       in Inr (iloc_upto split_idx df, iloc_from split_idx df))))))"

definition train_test_split ::
  "PreparedData \<Rightarrow> real \<Rightarrow> int \<Rightarrow> error + frame \<times> frame \<times> column \<times> column" where
  "train_test_split data test_size random_state =
     bind_err (chrono_frames data test_size) (\<lambda>(train_df, test_df).
       let feature_cols = filter (\<lambda>col. col \<notin> {''dead_stock'', ''Date''}) (columns train_df)
       in bind_err (getitem train_df feature_cols) (\<lambda>x_train.
          bind_err (getitem test_df feature_cols) (\<lambda>x_test.
          bind_err (get_col train_df ''dead_stock'') (\<lambda>y_train.
          bind_err (get_col test_df ''dead_stock'') (\<lambda>y_test.
            Inr (x_train, x_test, y_train, y_test))))))"

section \<open>Frames as objects\<close>

text \<open>
  A frame is a mutable object: the functions above receive a reference, and their
  assignments change the object the caller also holds. The heap maps references to the
  contents of the frame objects; \<open>next_ref\<close> is the first unused reference.
\<close>

record heap =
  objs :: "nat \<Rightarrow> frame"
  next_ref :: nat

text \<open>\<^verbatim>\<open>source.copy()\<close> and the frame a reader returns: a new object.\<close>

definition alloc :: "heap \<Rightarrow> frame \<Rightarrow> heap \<times> nat" where
  "alloc h df = (h\<lparr>objs := (objs h)(next_ref h := df), next_ref := Suc (next_ref h)\<rparr>, next_ref h)"

text \<open>Running in-place steps on the object at \<open>r\<close>; the reference itself is returned.\<close>

definition in_place :: "(frame \<Rightarrow> frame \<times> error option) \<Rightarrow> heap \<Rightarrow> nat \<Rightarrow> heap \<times> (error + nat)" where
  "in_place f h r =
     (case f (objs h r) of
        (df, err) \<Rightarrow>
          (h\<lparr>objs := (objs h)(r := df)\<rparr>, case err of None \<Rightarrow> Inr r | Some e \<Rightarrow> Inl e))"

definition engineer_features_obj :: "heap \<Rightarrow> nat \<Rightarrow> heap \<times> (error + nat)" where
  "engineer_features_obj h r = in_place engineer_features h r"

definition label_dead_stock_obj :: "heap \<Rightarrow> nat \<Rightarrow> heap \<times> (error + nat)" where
  "label_dead_stock_obj h r = in_place label_dead_stock h r"

definition load_data_obj :: "env \<Rightarrow> heap \<Rightarrow> nat source \<Rightarrow> heap \<times> (error + nat)" where
  "load_data_obj env h source =
     (case source of
        FromPath path \<Rightarrow>
          (case read_csv env path of
             Inl e \<Rightarrow> (h, Inl e)
           | Inr df \<Rightarrow> (case alloc h df of (h1, r1) \<Rightarrow> in_place (run_steps [sort_step]) h1 r1))
      | FromTable r \<Rightarrow>
          (case alloc h (objs h r) of
             (h1, r1) \<Rightarrow> in_place (run_steps [parse_date_step env, sort_step]) h1 r1)
      | Unsupported ty \<Rightarrow> (h, Inl (TypeError (''Unsupported data source type: '' @ ty))))"

definition prepare_dataset_obj ::
  "env \<Rightarrow> heap \<Rightarrow> nat source \<Rightarrow> heap \<times> (error + PreparedData)" where
  "prepare_dataset_obj env h source =
     (case load_data_obj env h source of
        (h1, Inl e) \<Rightarrow> (h1, Inl e)
      | (h1, Inr r1) \<Rightarrow>
          (case engineer_features_obj h1 r1 of
             (h2, Inl e) \<Rightarrow> (h2, Inl e)
           | (h2, Inr r2) \<Rightarrow>
               (case label_dead_stock_obj h2 r2 of
                  (h3, Inl e) \<Rightarrow> (h3, Inl e)
                | (h3, Inr r3) \<Rightarrow> (h3, assemble (objs h3 r3)))))"

section \<open>Notions used in the statements\<close>

text \<open>A step preserves a column when it leaves the row count and that column as they were.\<close>

definition preserves :: "step \<Rightarrow> string \<Rightarrow> bool" where
  "preserves s m = (\<forall>df d. s df = Inr d \<longrightarrow> nrows d = nrows df \<and> get_col d m = get_col df m)"

text \<open>The previous row of the same group, if there is one.\<close>

definition prev_in_group :: "'k list \<Rightarrow> nat \<Rightarrow> nat option" where
  "prev_in_group keys i =
     (case filter (\<lambda>j. keys ! j = keys ! i) [0..<i] of [] \<Rightarrow> None | js \<Rightarrow> Some (last js))"



text \<open>The columns that \<^verbatim>\<open>engineer_features\<close> and \<^verbatim>\<open>label_dead_stock\<close> assign.\<close>

definition engineered_cols :: "string list" where
  "engineered_cols =
     [''rolling_sales_7'', ''rolling_sales_30'', ''rolling_inventory_30'', ''sell_through_rate'',
      ''days_since_sale'', ''inventory_trend'', ''forecast_error'', ''order_gap'',
      ''rolling_inventory_30_norm'', ''days_since_sale_norm'', ''sell_through_rate_norm'']"

definition label_cols :: "string list" where
  "label_cols = [''dead_stock_label'', ''risk_score'']"

section \<open>The labelling rules of the specification\<close>

text \<open>
  The rule for one row as the specification words it: the label is set if any of the four
  conjunctions holds. The first argument is the 45th percentile of
  \<^verbatim>\<open>rolling_inventory_30\<close> over the whole table.
\<close>

definition dead_stock_spec :: "fl \<Rightarrow> fl \<Rightarrow> fl \<Rightarrow> fl \<Rightarrow> fl \<Rightarrow> fl \<Rightarrow> fl \<Rightarrow> bool" where
  "dead_stock_spec p45 rolling_inventory_30 rolling_sales_7 sell_through_rate inventory_level
       demand_forecast units_sold =
     (let high_inventory = fgt rolling_inventory_30 p45;
          slow_turnover = fle rolling_sales_7 (fmul (Fin (1 / 10)) rolling_inventory_30);
          weak_sell_through = flt sell_through_rate (Fin (3 / 10));
          overstock_vs_forecast = fgt (fsub inventory_level demand_forecast) (Fin 50);
          no_sales_today = feq units_sold (Fin 0);
          low_units_sold = fle units_sold (Fin 5)
      in (high_inventory \<and> slow_turnover) \<or> (overstock_vs_forecast \<and> weak_sell_through) \<or>
         (high_inventory \<and> no_sales_today) \<or> (high_inventory \<and> low_units_sold))"

text \<open>
  The risk score of one row as the specification words it: the weighted sum of the three
  terms, each \<open>NaN\<close> term replaced by 0 before the sum, clipped to the unit interval.
\<close>

definition risk_score_spec :: "fl \<Rightarrow> fl \<Rightarrow> fl \<Rightarrow> fl \<Rightarrow> fl" where
  "risk_score_spec rolling_inventory_30_norm sell_through_rate_norm rolling_sales_7
       rolling_inventory_30 =
     clip (Fin 0) (Fin 1)
       (fadd
          (fadd (fillna (Fin 0) (fmul (Fin (4 / 10)) rolling_inventory_30_norm))
                (fillna (Fin 0) (fmul (Fin (3 / 10)) (fsub (Fin 1) sell_through_rate_norm))))
          (fillna (Fin 0)
             (fmul (Fin (3 / 10))
                (fsub (Fin 1)
                   (clip (Fin 0) (Fin 1) (fdiv rolling_sales_7 (fadd rolling_inventory_30 eps)))))))"

section \<open>Example tables\<close>

definition env0 :: env where
  "env0 = \<lparr>read_csv = (\<lambda>path. Inl (ValueError ''no such file'')), to_datetime = Inr\<rparr>"

text \<open>One product in one store on three days, sold on the first day only.\<close>

definition sales_table :: frame where
  "sales_table = \<lparr>nrows = 3, cols = [
     (''Date'', DateCol [\<lparr>year = 2024, month = 1, day = 5\<rparr>, \<lparr>year = 2024, month = 1, day = 6\<rparr>,
                         \<lparr>year = 2024, month = 1, day = 7\<rparr>]),
     (''Store ID'', StrCol [''S001'', ''S001'', ''S001'']),
     (''Product ID'', StrCol [''P0001'', ''P0001'', ''P0001'']),
     (''Inventory Level'', NumCol [Fin 100, Fin 95, Fin 95]),
     (''Units Sold'', NumCol [Fin 5, Fin 0, Fin 0]),
     (''Units Ordered'', NumCol [Fin 10, Fin 0, Fin 0]),
     (''Demand Forecast'', NumCol [Fin 40, Fin 40, Fin 40])]\<rparr>"

text \<open>A single row without a sale.\<close>

definition no_sale_table :: frame where
  "no_sale_table = \<lparr>nrows = 1, cols = [
     (''Date'', DateCol [\<lparr>year = 2024, month = 1, day = 5\<rparr>]),
     (''Store ID'', StrCol [''S001'']),
     (''Product ID'', StrCol [''P0001'']),
     (''Inventory Level'', NumCol [Fin 10]),
     (''Units Sold'', NumCol [Fin 0]),
     (''Units Ordered'', NumCol [Fin 3]),
     (''Demand Forecast'', NumCol [Fin 5])]\<rparr>"

text \<open>A table without the date column.\<close>

definition undated_table :: frame where
  "undated_table = \<lparr>nrows = 1, cols = [
     (''Store ID'', StrCol [''S001'']),
     (''Product ID'', StrCol [''P0001'']),
     (''Units Sold'', NumCol [Fin 2])]\<rparr>"


text \<open>A product whose stock never changes and that sells every day.\<close>

definition flat_table :: frame where
  "flat_table = \<lparr>nrows = 2, cols = [
     (''Date'', DateCol [\<lparr>year = 2024, month = 1, day = 5\<rparr>, \<lparr>year = 2024, month = 1, day = 6\<rparr>]),
     (''Store ID'', StrCol [''S001'', ''S001'']),
     (''Product ID'', StrCol [''P0001'', ''P0001'']),
     (''Inventory Level'', NumCol [Fin 50, Fin 50]),
     (''Units Sold'', NumCol [Fin 3, Fin 4]),
     (''Units Ordered'', NumCol [Fin 3, Fin 4]),
     (''Demand Forecast'', NumCol [Fin 4, Fin 4])]\<rparr>"

text \<open>Two stores: one sells well from a small stock, the other stops selling from a large
  one. The second and third tables are the first after \<^verbatim>\<open>engineer_features\<close> and after
  \<^verbatim>\<open>label_dead_stock\<close>.\<close>

definition shop_table :: frame where
  "shop_table = \<lparr>nrows = 3, cols = [
     (''Date'', DateCol [\<lparr>year = 2024, month = 1, day = 5\<rparr>, \<lparr>year = 2024, month = 1, day = 5\<rparr>,
                         \<lparr>year = 2024, month = 1, day = 6\<rparr>]),
     (''Store ID'', StrCol [''S001'', ''S002'', ''S002'']),
     (''Product ID'', StrCol [''P0001'', ''P0001'', ''P0001'']),
     (''Inventory Level'', NumCol [Fin 20, Fin 200, Fin 200]),
     (''Units Sold'', NumCol [Fin 15, Fin 8, Fin 0]),
     (''Units Ordered'', NumCol [Fin 10, Fin 0, Fin 0]),
     (''Demand Forecast'', NumCol [Fin 18, Fin 12, Fin 12])]\<rparr>"

definition shop_engineered :: frame where
  "shop_engineered = \<lparr>nrows = 3, cols = cols shop_table @ [
     (''rolling_sales_7'', NumCol [Fin 15, Fin 8, Fin 4]),
     (''rolling_sales_30'', NumCol [Fin 15, Fin 8, Fin 4]),
     (''rolling_inventory_30'', NumCol [Fin 20, Fin 200, Fin 200]),
     (''sell_through_rate'', NumCol [Fin (5000 / 6667), Fin (8000 / 200001), Fin (4000 / 200001)]),
     (''days_since_sale'', IntCol [0, 0, 1]),
     (''inventory_trend'', NumCol [Fin 0, Fin 0, Fin 0]),
     (''forecast_error'',
        NumCol [Fin (- (3000 / 18001)), Fin (- (4000 / 12001)), Fin (- (12000 / 12001))]),
     (''order_gap'', NumCol [Fin (- 5), Fin (- 8), Fin 0]),
     (''rolling_inventory_30_norm'', NumCol [Fin 0, Fin 1, Fin 1]),
     (''days_since_sale_norm'', NumCol [Fin 0, Fin 0, Fin 1]),
     (''sell_through_rate_norm'',
        NumCol [Fin 1, Fin (53336 / 1000005), Fin (26668 / 1000005)])]\<rparr>"

definition shop_labelled :: frame where
  "shop_labelled = \<lparr>nrows = 3, cols = cols shop_engineered @ [
     (''dead_stock_label'', IntCol [0, 1, 1]),
     (''risk_score'',
        NumCol [Fin (5001 / 66670), Fin (1620007 / 1666675), Fin (1643341 / 1666675)])]\<rparr>"

text \<open>A table with every column of the dataset, its rows not yet in the loader's order.\<close>

definition inventory_table :: frame where
  "inventory_table = \<lparr>nrows = 3, cols = [
     (''Date'', DateCol [\<lparr>year = 2024, month = 1, day = 6\<rparr>, \<lparr>year = 2024, month = 1, day = 5\<rparr>,
                         \<lparr>year = 2024, month = 1, day = 5\<rparr>]),
     (''Store ID'', StrCol [''S002'', ''S002'', ''S001'']),
     (''Product ID'', StrCol [''P0001'', ''P0001'', ''P0001'']),
     (''Category'', StrCol [''Toys'', ''Toys'', ''Toys'']),
     (''Region'', StrCol [''North'', ''North'', ''East'']),
     (''Inventory Level'', NumCol [Fin 200, Fin 200, Fin 20]),
     (''Units Sold'', NumCol [Fin 0, Fin 8, Fin 15]),
     (''Units Ordered'', NumCol [Fin 0, Fin 0, Fin 10]),
     (''Demand Forecast'', NumCol [Fin 12, Fin 12, Fin 18]),
     (''Price'', NumCol [Fin 30, Fin 30, Fin 25]),
     (''Discount'', NumCol [Fin 0, Fin 10, Fin 5]),
     (''Weather Condition'', StrCol [''Rainy'', ''Sunny'', ''Sunny'']),
     (''Holiday/Promotion'', IntCol [0, 1, 0]),
     (''Competitor Pricing'', NumCol [Fin 29, Fin 31, Fin 26]),
     (''Seasonality'', StrCol [''Winter'', ''Winter'', ''Winter''])]\<rparr>"





text \<open>A heap in which the caller holds one table, at reference 0.\<close>

definition single_heap :: "frame \<Rightarrow> heap" where
  "single_heap df = \<lparr>objs = (\<lambda>r. df), next_ref = 1\<rparr>"

section \<open>Basic lemmas\<close>

lemma bind_err_Inr: "(bind_err r f = Inr y) = (\<exists>x. r = Inr x \<and> f x = Inr y)"
  by (cases r) (simp_all add: bind_err_def)

lemma bind_err_Inr_simp [simp]: "bind_err (Inr x) f = f x"
  by (simp add: bind_err_def)

lemma bind_err_Inl_simp [simp]: "bind_err (Inl e) f = Inl e"
  by (simp add: bind_err_def)

lemma set_col_Inr: "(set_col df name c = Inr d) = (col_len c = nrows df \<and> d = with_col name c df)"
  by (auto simp: set_col_def)

lemma assign_Inr:
  "(assign name rhs df = Inr d) =
     (\<exists>c. rhs df = Inr c \<and> col_len c = nrows df \<and> d = with_col name c df)"
  by (auto simp: assign_def bind_err_Inr set_col_Inr)

lemma get_col_with_col: "get_col (with_col n c df) m = (if m = n then Inr c else get_col df m)"
  by (simp add: get_col_def with_col_def update_conv')

lemma nrows_with_col [simp]: "nrows (with_col n c df) = nrows df"
  by (simp add: with_col_def)

lemma preserves_assign: "n \<noteq> m \<Longrightarrow> preserves (assign n rhs) m"
  by (auto simp: preserves_def assign_Inr get_col_with_col)

lemma normalize_step_Inr:
  "(normalize_step col df = Inr d) =
     (\<exists>values normed. get_num df col = Inr values \<and>
        (if col = ''sell_through_rate'' then max_normalized values
         else minmax_normalized values) = Inr normed \<and>
        length normed = nrows df \<and> d = with_col (col @ ''_norm'') (NumCol normed) df)"
  by (cases "col = ''sell_through_rate''")
     (auto simp: normalize_step_def Let_def bind_err_Inr set_col_Inr)

lemma preserves_normalize: "col @ ''_norm'' \<noteq> m \<Longrightarrow> preserves (normalize_step col) m"
  unfolding preserves_def
  by (auto simp: normalize_step_Inr get_col_with_col)

text \<open>Steps that preserve a column leave it unchanged when they all succeed.\<close>

lemma run_steps_preserves:
  "run_steps ss df = (df', None) \<Longrightarrow> \<forall>s\<in>set ss. preserves s m \<Longrightarrow>
     nrows df' = nrows df \<and> get_col df' m = get_col df m"
proof (induction ss arbitrary: df)
  case Nil
  then show ?case by simp
next
  case (Cons s ss)
  then obtain d where d: "s df = Inr d" "run_steps ss d = (df', None)"
    by (cases "s df") auto
  from Cons.prems(2) d(1) have "nrows d = nrows df \<and> get_col d m = get_col df m"
    by (simp add: preserves_def)
  moreover from Cons.IH[OF d(2)] Cons.prems(2)
  have "nrows df' = nrows d \<and> get_col df' m = get_col d m" by simp
  ultimately show ?case by simp
qed

text \<open>A successful run passes through the frame before and after each of its steps.\<close>

lemma run_steps_split:
  "run_steps ss df = (df', None) \<Longrightarrow> k < length ss \<Longrightarrow>
     \<exists>d1 d2. run_steps (take k ss) df = (d1, None) \<and> (ss ! k) d1 = Inr d2 \<and>
             run_steps (drop (Suc k) ss) d2 = (df', None)"
proof (induction ss arbitrary: df k)
  case Nil
  then show ?case by simp
next
  case (Cons s ss)
  then obtain d where d: "s df = Inr d" "run_steps ss d = (df', None)"
    by (cases "s df") auto
  show ?case
  proof (cases k)
    case 0
    with d show ?thesis by simp
  next
    case (Suc k')
    with Cons.prems(2) have "k' < length ss" by simp
    from Cons.IH[OF d(2) this] Suc d(1) show ?thesis by simp
  qed
qed

lemma transform_Inr:
  "(transform grouped name f mk df = Inr c) =
     (\<exists>s. get_num df name = Inr s \<and> c = mk (gb_transform grouped s f))"
  by (auto simp: transform_def bind_err_Inr)

lemma length_gb_transform [simp]: "length (gb_transform keys vals f) = length vals"
  by (simp add: gb_transform_def)

lemma engineer_features_Inr:
  "engineer_features df = (df', None) \<Longrightarrow>
     \<exists>grouped. groupby df [''Store ID'', ''Product ID''] = Inr grouped \<and>
        run_steps (engineer_steps grouped) df = (df', None)"
  by (auto simp: engineer_features_def split: sum.splits)

lemma length_engineer_steps: "length (engineer_steps g) = 11"
  by (simp add: engineer_steps_def)

lemma length_groupby: "groupby df by = Inr grouped \<Longrightarrow> length grouped = nrows df"
  by (auto simp: groupby_def bind_err_Inr split: if_splits)

section \<open>Groups and positions\<close>

lemma upt_split: "i < n \<Longrightarrow> [0..<n] = [0..<i] @ i # [Suc i..<n]"
  by (induction n) (auto simp: less_Suc_eq)

text \<open>The rows of a group up to row \<open>i\<close> are the first entries of the group's index list.\<close>

lemma group_take:
  assumes "i < length keys"
  shows "take (Suc (group_rank keys i)) (group_indices keys (keys ! i)) =
           filter (\<lambda>j. keys ! j = keys ! i) [0..<i] @ [i]"
proof -
  have "[0..<length keys] = [0..<i] @ i # [Suc i..<length keys]"
    using assms by (rule upt_split)
  then have "group_indices keys (keys ! i) =
      (filter (\<lambda>j. keys ! j = keys ! i) [0..<i] @ [i]) @
      filter (\<lambda>j. keys ! j = keys ! i) [Suc i..<length keys]"
    by (simp add: group_indices_def)
  moreover have "length (filter (\<lambda>j. keys ! j = keys ! i) [0..<i] @ [i]) = Suc (group_rank keys i)"
    by (simp add: group_rank_def)
  ultimately show ?thesis
    by (metis append_eq_conv_conj)
qed

lemma group_nth:
  assumes "i < length keys"
  shows "group_rank keys i < length (group_indices keys (keys ! i)) \<and>
         group_indices keys (keys ! i) ! group_rank keys i = i"
proof -
  let ?gi = "group_indices keys (keys ! i)" and ?F = "filter (\<lambda>j. keys ! j = keys ! i) [0..<i]"
  have t: "take (Suc (group_rank keys i)) ?gi = ?F @ [i]" by (rule group_take[OF assms])
  have lF: "length ?F = group_rank keys i" by (simp add: group_rank_def)
  from t have "length (take (Suc (group_rank keys i)) ?gi) = Suc (group_rank keys i)"
    using lF by simp
  then have lt: "group_rank keys i < length ?gi" by simp
  have "?gi ! group_rank keys i = take (Suc (group_rank keys i)) ?gi ! group_rank keys i" by simp
  also have "\<dots> = i" unfolding t using lF by (metis nth_append_length)
  finally show ?thesis using lt by simp
qed

lemma distinct_group_indices: "distinct (group_indices keys k)"
  by (simp add: group_indices_def)

lemma group_rank_unique:
  assumes "i < length keys" "q < length (group_indices keys (keys ! i))"
    "group_indices keys (keys ! i) ! q = i"
  shows "q = group_rank keys i"
  using group_nth[OF assms(1)] assms(2,3) distinct_group_indices[of keys "keys ! i"]
  by (metis nth_eq_iff_index_eq)

lemma prev_in_group_None: "prev_in_group keys i = None \<Longrightarrow> group_rank keys i = 0"
  by (auto simp: prev_in_group_def group_rank_def split: list.splits)

lemma prev_in_group_Some:
  assumes "prev_in_group keys i = Some j" "i < length keys"
  shows "j < i \<and> keys ! j = keys ! i \<and> Suc (group_rank keys j) = group_rank keys i"
proof -
  let ?gi = "group_indices keys (keys ! i)" and ?F = "filter (\<lambda>j. keys ! j = keys ! i) [0..<i]"
  from assms(1) have ne: "?F \<noteq> []" and j: "j = last ?F"
    by (auto simp: prev_in_group_def split: list.splits)
  from ne j have "j \<in> set ?F" by (metis last_in_set)
  then have ji: "j < i" and kj: "keys ! j = keys ! i" by auto
  have lF: "length ?F = group_rank keys i" by (simp add: group_rank_def)
  with ne have pos: "0 < group_rank keys i" by (metis length_greater_0_conv)
  have t: "take (Suc (group_rank keys i)) ?gi = ?F @ [i]" by (rule group_take[OF assms(2)])
  from group_nth[OF assms(2)] have lt: "group_rank keys i < length ?gi" by simp
  have "?gi ! (group_rank keys i - 1) = take (Suc (group_rank keys i)) ?gi ! (group_rank keys i - 1)"
    using pos by simp
  also have "\<dots> = ?F ! (group_rank keys i - 1)"
    unfolding t using pos lF by (simp add: nth_append)
  also have "\<dots> = j" using ne j lF by (simp add: last_conv_nth)
  finally have nth: "?gi ! (group_rank keys i - 1) = j" .
  from ji assms(2) have jl: "j < length keys" by simp
  have "group_rank keys i - 1 = group_rank keys j"
    using group_rank_unique[OF jl, of "group_rank keys i - 1"] nth lt kj by simp
  with pos ji kj show ?thesis by simp
qed

lemma gb_transform_nth:
  "i < length vals \<Longrightarrow>
     gb_transform keys vals f ! i =
       f (map (\<lambda>j. vals ! j) (group_indices keys (keys ! i))) ! group_rank keys i"
  by (simp add: gb_transform_def)

section \<open>The days-since-sale counter\<close>

lemma length_days_since_loop [simp]: "length (days_since_loop c xs) = length xs"
  by (induction xs arbitrary: c) (simp_all add: Let_def)

text \<open>The loop at one position: a sale resets the counter, anything else adds one to the
  counter of the position before (to the initial counter at the first position).\<close>

lemma days_since_loop_nth:
  "p < length xs \<Longrightarrow>
     days_since_loop c xs ! p =
       (if fgt (xs ! p) (Fin 0) then 0
        else (if p = 0 then c else days_since_loop c xs ! (p - 1)) + 1)"
proof (induction xs arbitrary: c p)
  case Nil
  then show ?case by simp
next
  case (Cons x xs)
  show ?case
  proof (cases p)
    case 0
    then show ?thesis by (simp add: Let_def)
  next
    case (Suc q)
    with Cons.prems have q: "q < length xs" by simp
    show ?thesis
      using Cons.IH[OF q] Suc by (cases q) (simp_all add: Let_def)
  qed
qed

lemma days_column_step:
  assumes len: "length keys = length us" and i: "i < length us"
  shows "gb_transform keys us days_since_last_sale ! i =
           (if fgt (us ! i) (Fin 0) then 0
            else case prev_in_group keys i of
                   None \<Rightarrow> 1
                 | Some j \<Rightarrow> gb_transform keys us days_since_last_sale ! j + 1)"
proof -
  let ?gi = "group_indices keys (keys ! i)"
  let ?s = "map (\<lambda>j. us ! j) ?gi"
  let ?p = "group_rank keys i"
  from i len have ik: "i < length keys" by simp
  from group_nth[OF ik] have p: "?p < length ?s" and sp: "?s ! ?p = us ! i" by simp_all
  have a: "gb_transform keys us days_since_last_sale ! i = days_since_loop 0 ?s ! ?p"
    using i by (simp add: gb_transform_nth days_since_last_sale_def)
  note b = days_since_loop_nth[OF p, of 0]
  show ?thesis
  proof (cases "prev_in_group keys i")
    case None
    with prev_in_group_None[OF None] a b sp show ?thesis by simp
  next
    case (Some j)
    from prev_in_group_Some[OF Some ik] have ji: "j < i" and kj: "keys ! j = keys ! i"
      and r: "Suc (group_rank keys j) = ?p" by simp_all
    from ji i have "j < length us" by simp
    then have "gb_transform keys us days_since_last_sale ! j =
        days_since_loop 0 ?s ! group_rank keys j"
      by (simp add: gb_transform_nth days_since_last_sale_def kj)
    moreover from r have "?p \<noteq> 0" "?p - 1 = group_rank keys j" by simp_all
    ultimately show ?thesis using a b sp Some by simp
  qed
qed

lemma engineer_features_days:
  assumes "engineer_features df = (df', None)"
  shows "\<exists>grouped us. groupby df [''Store ID'', ''Product ID''] = Inr grouped \<and>
           get_num df ''Units Sold'' = Inr us \<and> length us = nrows df \<and>
           get_col df' ''days_since_sale'' =
             Inr (IntCol (gb_transform grouped us days_since_last_sale))"
proof -
  from engineer_features_Inr[OF assms] obtain grouped where
    g: "groupby df [''Store ID'', ''Product ID''] = Inr grouped"
    and r: "run_steps (engineer_steps grouped) df = (df', None)" by blast
  from run_steps_split[OF r, of 4] obtain d1 d2 where
    pre: "run_steps (take 4 (engineer_steps grouped)) df = (d1, None)"
    and st: "(engineer_steps grouped ! 4) d1 = Inr d2"
    and post: "run_steps (drop 5 (engineer_steps grouped)) d2 = (df', None)"
    by (auto simp: length_engineer_steps)
  have p1: "nrows d1 = nrows df \<and> get_col d1 ''Units Sold'' = get_col df ''Units Sold''"
    by (rule run_steps_preserves[OF pre]) (simp add: engineer_steps_def preserves_assign)
  have p2: "nrows df' = nrows d2 \<and>
      get_col df' ''days_since_sale'' = get_col d2 ''days_since_sale''"
    by (rule run_steps_preserves[OF post])
       (simp add: engineer_steps_def preserves_assign preserves_normalize)
  from st obtain us where us: "get_num d1 ''Units Sold'' = Inr us"
    and d2: "d2 = with_col ''days_since_sale''
                    (IntCol (gb_transform grouped us days_since_last_sale)) d1"
    and len: "length us = nrows d1"
    by (auto simp: engineer_steps_def assign_Inr transform_Inr)
  from us p1 have "get_num df ''Units Sold'' = Inr us" by (simp add: get_num_def)
  with g p1 p2 d2 len show ?thesis by (simp add: get_col_with_col)
qed

text \<open>
  C1, as the code has it. In the table that \<^verbatim>\<open>engineer_features\<close> returns,
  \<^verbatim>\<open>days_since_sale\<close> is 0 on every row with \<^verbatim>\<open>Units Sold > 0\<close>; on any other row it
  is one more than the value of the previous row of the same (store, product) group, and 1
  when the row is the first of its group: the counter enters each group at 0 and the
  first row counts like every other row.
\<close>

theorem days_since_sale_counter:
  assumes "engineer_features df = (df', None)"
  shows "\<exists>grouped us days.
           groupby df [''Store ID'', ''Product ID''] = Inr grouped \<and>
           get_num df ''Units Sold'' = Inr us \<and>
           get_col df' ''days_since_sale'' = Inr (IntCol days) \<and>
           length days = nrows df \<and>
           (\<forall>i<nrows df.
              days ! i =
                (if fgt (us ! i) (Fin 0) then 0
                 else case prev_in_group grouped i of
                        None \<Rightarrow> 1
                      | Some j \<Rightarrow> days ! j + 1))"
proof -
  from engineer_features_days[OF assms] obtain grouped us where
    g: "groupby df [''Store ID'', ''Product ID''] = Inr grouped"
    and us: "get_num df ''Units Sold'' = Inr us" and len: "length us = nrows df"
    and col: "get_col df' ''days_since_sale'' =
                Inr (IntCol (gb_transform grouped us days_since_last_sale))"
    by blast
  from length_groupby[OF g] len have lk: "length grouped = length us" by simp
  have "\<forall>i<nrows df.
          gb_transform grouped us days_since_last_sale ! i =
            (if fgt (us ! i) (Fin 0) then 0
             else case prev_in_group grouped i of
                    None \<Rightarrow> 1
                  | Some j \<Rightarrow> gb_transform grouped us days_since_last_sale ! j + 1)"
    using days_column_step[OF lk] len by simp
  with g us col len show ?thesis by auto
qed

theorem days_since_sale_counter_witness:
  "engineer_features sales_table = (fst (engineer_features sales_table), None) \<and>
   (\<exists>grouped us days.
      groupby sales_table [''Store ID'', ''Product ID''] = Inr grouped \<and>
      get_num sales_table ''Units Sold'' = Inr us \<and>
      get_col (fst (engineer_features sales_table)) ''days_since_sale'' = Inr (IntCol days) \<and>
      length days = nrows sales_table \<and>
      (\<forall>i<nrows sales_table.
         days ! i =
           (if fgt (us ! i) (Fin 0) then 0
            else case prev_in_group grouped i of
                   None \<Rightarrow> 1
                 | Some j \<Rightarrow> days ! j + 1)))"
proof -
  have h: "engineer_features sales_table = (fst (engineer_features sales_table), None)"
    by code_simp
  from h days_since_sale_counter[OF h] show ?thesis by (rule conjI)
qed

theorem days_since_sale_first_row_counterexample:
  "get_num no_sale_table ''Units Sold'' = Inr [Fin 0] \<and>
   engineer_features no_sale_table = (fst (engineer_features no_sale_table), None) \<and>
   get_col (fst (engineer_features no_sale_table)) ''days_since_sale'' = Inr (IntCol [1])"
  by code_simp

section \<open>Loading\<close>

text \<open>
  C7. An in-memory table without a \<^verbatim>\<open>Date\<close> column makes \<^verbatim>\<open>load_data\<close> raise the error
  the code uses for a missing required column, a \<^verbatim>\<open>ValueError\<close> saying that the frame
  must include the column. It is not the \<^verbatim>\<open>TypeError\<close> of an unsupported source, and
  \<^verbatim>\<open>prepare_dataset\<close> raises it too, so no dataset is returned.
\<close>

theorem load_data_missing_date:
  assumes "''Date'' \<notin> set (columns table)"
  shows "load_data env (FromTable table) = Inl (ValueError missing_date_msg) \<and>
         prepare_dataset env (FromTable table) = Inl (ValueError missing_date_msg) \<and>
         (\<forall>ty. load_data env (Unsupported ty) =
                 Inl (TypeError (''Unsupported data source type: '' @ ty)) \<and>
               load_data env (FromTable table) \<noteq> load_data env (Unsupported ty))"
  using assms by (simp add: load_data_def prepare_dataset_def parse_date_step_def)

theorem load_data_missing_date_witness:
  "''Date'' \<notin> set (columns undated_table) \<and>
   load_data env0 (FromTable undated_table) = Inl (ValueError missing_date_msg) \<and>
   prepare_dataset env0 (FromTable undated_table) = Inl (ValueError missing_date_msg) \<and>
   (\<forall>ty. load_data env0 (Unsupported ty) =
           Inl (TypeError (''Unsupported data source type: '' @ ty)) \<and>
         load_data env0 (FromTable undated_table) \<noteq> load_data env0 (Unsupported ty))"
proof -
  have h: "''Date'' \<notin> set (columns undated_table)"
    by (simp add: undated_table_def columns_def)
  from h load_data_missing_date[OF h, of env0] show ?thesis by (rule conjI)
qed

section \<open>The chronological split\<close>

text \<open>
  C10. \<^verbatim>\<open>train_test_split\<close> never reads its \<^verbatim>\<open>random_state\<close> argument: two calls that
  differ in it only return the same result.
\<close>

theorem train_test_split_ignores_random_state:
  "train_test_split data test_size r1 = train_test_split data test_size r2"
  by (simp add: train_test_split_def)

section \<open>Rolling means\<close>



lemma length_rolling_mean [simp]: "length (rolling_mean w mp s) = length s"
  by (simp add: rolling_mean_def)









section \<open>Normalisation\<close>

lemma fold_fmin2_const: "\<forall>v\<in>set xs. v = c \<Longrightarrow> fold fmin2 xs c = c"
  by (induction xs) (simp_all add: fmin2_def)

lemma fold_fmax2_const: "\<forall>v\<in>set xs. v = c \<Longrightarrow> fold fmax2 xs c = c"
  by (induction xs) (simp_all add: fmax2_def)

lemma flt_irrefl [simp]: "\<not> flt a a"
  by (cases a) simp_all

text \<open>With equal observations the minimum and the maximum are that observation; without
  any observation both are \<open>NaN\<close>.\<close>

lemma nan_extrema_constant:
  assumes "vs \<noteq> []" and "\<forall>v\<in>set vs. isnan v \<or> v = c"
  shows "\<exists>m. nanmin vs = Inr m \<and> nanmax vs = Inr m \<and> (\<forall>v\<in>set vs. v = NaN \<or> v = m)"
proof (cases "dropna vs")
  case Nil
  then have "\<forall>v\<in>set vs. v = NaN"
    by (auto simp: dropna_def filter_empty_conv isnan_def)
  with Nil assms(1) show ?thesis
    by (intro exI[of _ NaN]) (simp add: nanmin_def nanmax_def)
next
  case (Cons x xs)
  then have "set (x # xs) = {v \<in> set vs. \<not> isnan v}"
    by (metis dropna_def set_filter)
  with assms(2) have all: "\<forall>v\<in>set (x # xs). v = c" by auto
  then have x: "x = c" and xs: "\<forall>v\<in>set xs. v = c" by simp_all
  from assms(2) have "\<forall>v\<in>set vs. v = NaN \<or> v = c" by (simp add: isnan_def)
  with Cons assms(1) x xs show ?thesis
    by (intro exI[of _ c]) (simp add: nanmin_def nanmax_def fold_fmin2_const fold_fmax2_const)
qed

text \<open>One cell of a column of zero range: the divisor is 1, or \<open>NaN\<close> when the common
  value is not finite, and the quotient becomes 0 either way.\<close>

lemma norm_cell_zero:
  "v = NaN \<or> v = m \<Longrightarrow>
     nan_to_num (fdiv (fsub v m) (if truthy (fsub m m) then fsub m m else Fin 1)) = Fin 0"
  by (cases m; cases v) (simp_all add: fsub_def truthy_def)

lemma minmax_normalized_constant:
  assumes "vs \<noteq> []" and "\<forall>v\<in>set vs. isnan v \<or> v = c"
  shows "minmax_normalized vs = Inr (replicate (length vs) (Fin 0))"
proof -
  from nan_extrema_constant[OF assms] obtain m where
    m: "nanmin vs = Inr m" "nanmax vs = Inr m" and vs: "\<forall>v\<in>set vs. v = NaN \<or> v = m"
    by blast
  have "map (\<lambda>v. nan_to_num (fdiv (fsub v m) (if truthy (fsub m m) then fsub m m else Fin 1))) vs =
        map (\<lambda>v. Fin 0) vs"
    using vs by (intro map_cong) (simp_all add: norm_cell_zero)
  with m show ?thesis
    by (simp add: minmax_normalized_def Let_def map_replicate_const)
qed

lemma minmax_normalized_nonempty: "minmax_normalized vs = Inr normed \<Longrightarrow> vs \<noteq> []"
  by (auto simp: minmax_normalized_def nanmin_def)

text \<open>What the run of \<^verbatim>\<open>engineer_features\<close> leaves in the two min-max companions.\<close>

lemma engineer_features_inventory_norm:
  assumes "engineer_features df = (df', None)"
  shows "\<exists>values normed. get_num df' ''rolling_inventory_30'' = Inr values \<and>
           minmax_normalized values = Inr normed \<and> length normed = nrows df \<and>
           get_col df' ''rolling_inventory_30_norm'' = Inr (NumCol normed)"
proof -
  from engineer_features_Inr[OF assms] obtain grouped where
    r: "run_steps (engineer_steps grouped) df = (df', None)" by blast
  from run_steps_split[OF r, of 8] obtain d1 d2 where
    pre: "run_steps (take 8 (engineer_steps grouped)) df = (d1, None)"
    and st: "(engineer_steps grouped ! 8) d1 = Inr d2"
    and post: "run_steps (drop 9 (engineer_steps grouped)) d2 = (df', None)"
    by (auto simp: length_engineer_steps)
  have n1: "nrows d1 = nrows df"
    using run_steps_preserves[OF pre, of "''Date''"]
    by (simp add: engineer_steps_def preserves_assign)
  have p1: "nrows df' = nrows d2 \<and>
      get_col df' ''rolling_inventory_30'' = get_col d2 ''rolling_inventory_30''"
    by (rule run_steps_preserves[OF post]) (simp add: engineer_steps_def preserves_normalize)
  have p2: "nrows df' = nrows d2 \<and>
      get_col df' ''rolling_inventory_30_norm'' = get_col d2 ''rolling_inventory_30_norm''"
    by (rule run_steps_preserves[OF post]) (simp add: engineer_steps_def preserves_normalize)
  from st obtain vals normed where v: "get_num d1 ''rolling_inventory_30'' = Inr vals"
    and n: "minmax_normalized vals = Inr normed" and len: "length normed = nrows d1"
    and d2: "d2 = with_col ''rolling_inventory_30_norm'' (NumCol normed) d1"
    by (auto simp: engineer_steps_def normalize_step_Inr)
  from d2 have "get_col d2 ''rolling_inventory_30'' = get_col d1 ''rolling_inventory_30''"
    by (simp add: get_col_with_col)
  with p1 v have "get_num df' ''rolling_inventory_30'' = Inr vals"
    by (simp add: get_num_def)
  with n len n1 p2 d2 show ?thesis by (simp add: get_col_with_col)
qed

lemma engineer_features_days_norm:
  assumes "engineer_features df = (df', None)"
  shows "\<exists>values normed. get_num df' ''days_since_sale'' = Inr values \<and>
           minmax_normalized values = Inr normed \<and> length normed = nrows df \<and>
           get_col df' ''days_since_sale_norm'' = Inr (NumCol normed)"
proof -
  from engineer_features_Inr[OF assms] obtain grouped where
    r: "run_steps (engineer_steps grouped) df = (df', None)" by blast
  from run_steps_split[OF r, of 9] obtain d1 d2 where
    pre: "run_steps (take 9 (engineer_steps grouped)) df = (d1, None)"
    and st: "(engineer_steps grouped ! 9) d1 = Inr d2"
    and post: "run_steps (drop 10 (engineer_steps grouped)) d2 = (df', None)"
    by (auto simp: length_engineer_steps)
  have n1: "nrows d1 = nrows df"
    using run_steps_preserves[OF pre, of "''Date''"]
    by (simp add: engineer_steps_def preserves_assign preserves_normalize)
  have p1: "nrows df' = nrows d2 \<and> get_col df' ''days_since_sale'' = get_col d2 ''days_since_sale''"
    by (rule run_steps_preserves[OF post]) (simp add: engineer_steps_def preserves_normalize)
  have p2: "nrows df' = nrows d2 \<and>
      get_col df' ''days_since_sale_norm'' = get_col d2 ''days_since_sale_norm''"
    by (rule run_steps_preserves[OF post]) (simp add: engineer_steps_def preserves_normalize)
  from st obtain vals normed where v: "get_num d1 ''days_since_sale'' = Inr vals"
    and n: "minmax_normalized vals = Inr normed" and len: "length normed = nrows d1"
    and d2: "d2 = with_col ''days_since_sale_norm'' (NumCol normed) d1"
    by (auto simp: engineer_steps_def normalize_step_Inr)
  from d2 have "get_col d2 ''days_since_sale'' = get_col d1 ''days_since_sale''"
    by (simp add: get_col_with_col)
  with p1 v have "get_num df' ''days_since_sale'' = Inr vals"
    by (simp add: get_num_def)
  with n len n1 p2 d2 show ?thesis by (simp add: get_col_with_col)
qed

text \<open>
  C9. When the values of a column are all equal (missing values aside), its min-max
  normalisation returns, without an error, a column of zeros: the range is zero and the
  code divides by 1. So in every table that \<^verbatim>\<open>engineer_features\<close> returns, the companion
  \<^verbatim>\<open>rolling_inventory_30_norm\<close> (or \<^verbatim>\<open>days_since_sale_norm\<close>) is all zeros when
  \<^verbatim>\<open>rolling_inventory_30\<close> (or \<^verbatim>\<open>days_since_sale\<close>) has zero range.
\<close>

theorem zero_range_normalizes_to_zero:
  assumes "\<forall>v\<in>set values. isnan v \<or> v = c"
  shows "(values \<noteq> [] \<longrightarrow> minmax_normalized values = Inr (replicate (length values) (Fin 0))) \<and>
         (\<forall>df df' col.
            engineer_features df = (df', None) \<and>
            (col = ''rolling_inventory_30'' \<or> col = ''days_since_sale'') \<and>
            get_num df' col = Inr values \<longrightarrow>
            get_col df' (col @ ''_norm'') = Inr (NumCol (replicate (length values) (Fin 0))))"
proof (intro conjI allI impI)
  assume "values \<noteq> []"
  then show "minmax_normalized values = Inr (replicate (length values) (Fin 0))"
    using assms by (rule minmax_normalized_constant)
next
  fix df df' col
  assume a: "engineer_features df = (df', None) \<and>
    (col = ''rolling_inventory_30'' \<or> col = ''days_since_sale'') \<and>
    get_num df' col = Inr values"
  then have e: "engineer_features df = (df', None)" and v: "get_num df' col = Inr values"
    by simp_all
  from a consider "col = ''rolling_inventory_30''" | "col = ''days_since_sale''" by blast
  then show "get_col df' (col @ ''_norm'') = Inr (NumCol (replicate (length values) (Fin 0)))"
  proof cases
    case 1
    from engineer_features_inventory_norm[OF e] v 1 obtain normed where
      n: "minmax_normalized values = Inr normed"
      and c: "get_col df' ''rolling_inventory_30_norm'' = Inr (NumCol normed)" by auto
    from minmax_normalized_constant[OF minmax_normalized_nonempty[OF n] assms] n c 1
    show ?thesis by simp
  next
    case 2
    from engineer_features_days_norm[OF e] v 2 obtain normed where
      n: "minmax_normalized values = Inr normed"
      and c: "get_col df' ''days_since_sale_norm'' = Inr (NumCol normed)" by auto
    from minmax_normalized_constant[OF minmax_normalized_nonempty[OF n] assms] n c 2
    show ?thesis by simp
  qed
qed

theorem zero_range_normalizes_to_zero_witness:
  "get_num (fst (engineer_features flat_table)) ''rolling_inventory_30'' = Inr [Fin 50, Fin 50] \<and>
   engineer_features flat_table = (fst (engineer_features flat_table), None) \<and>
   minmax_normalized [Fin 50, Fin 50] = Inr [Fin 0, Fin 0] \<and>
   get_col (fst (engineer_features flat_table)) ''rolling_inventory_30_norm'' =
     Inr (NumCol [Fin 0, Fin 0])"
proof -
  have hyp: "\<forall>v\<in>set [Fin 50, Fin 50]. isnan v \<or> v = Fin 50" by simp
  have h: "engineer_features flat_table = (fst (engineer_features flat_table), None)"
    by code_simp
  have g: "get_num (fst (engineer_features flat_table)) ''rolling_inventory_30'' =
             Inr [Fin 50, Fin 50]"
    by code_simp
  note t = zero_range_normalizes_to_zero[OF hyp]
  from t have "minmax_normalized [Fin 50, Fin 50] = Inr (replicate (length [Fin 50, Fin 50 :: fl]) (Fin 0))"
    by simp
  moreover from t h g have "get_col (fst (engineer_features flat_table)) (''rolling_inventory_30'' @ ''_norm'') =
      Inr (NumCol (replicate (length [Fin 50, Fin 50 :: fl]) (Fin 0)))"
    by blast
  ultimately show ?thesis using h g by (simp add: numeral_2_eq_2)
qed

section \<open>Labelling\<close>

lemma binop_Inr:
  "(binop f a b df = Inr zs) =
     (\<exists>xs ys. get_num df a = Inr xs \<and> get_num df b = Inr ys \<and> zs = map2 f xs ys)"
  by (auto simp: binop_def bind_err_Inr)

lemma label_dead_stock_Inr:
  assumes "label_dead_stock df = (df', None)"
  shows "\<exists>lab risk. dead_stock_rule df = Inr lab \<and> col_len lab = nrows df \<and>
           risk_score_rule (with_col ''dead_stock_label'' lab df) = Inr risk \<and>
           col_len risk = nrows df \<and>
           df' = with_col ''risk_score'' risk (with_col ''dead_stock_label'' lab df)"
proof -
  from assms obtain d where d: "assign ''dead_stock_label'' dead_stock_rule df = Inr d"
    and r: "run_steps [assign ''risk_score'' risk_score_rule] d = (df', None)"
    by (cases "assign ''dead_stock_label'' dead_stock_rule df") (auto simp: label_dead_stock_def)
  from r have r': "assign ''risk_score'' risk_score_rule d = Inr df'"
    by (cases "assign ''risk_score'' risk_score_rule d") auto
  from d r' show ?thesis by (auto simp: assign_Inr)
qed

lemma dead_stock_rule_Inr:
  assumes "dead_stock_rule df = Inr lab"
  shows "\<exists>ri30 rs7 st il fc us.
           get_num df ''rolling_inventory_30'' = Inr ri30 \<and>
           get_num df ''rolling_sales_7'' = Inr rs7 \<and>
           get_num df ''sell_through_rate'' = Inr st \<and>
           get_num df ''Inventory Level'' = Inr il \<and>
           get_num df ''Demand Forecast'' = Inr fc \<and>
           get_num df ''Units Sold'' = Inr us \<and>
           lab = IntCol (map (\<lambda>b. if b then 1 else 0)
             (map2 (\<or>)
                (map2 (\<or>)
                   (map2 (\<or>)
                      (map2 (\<and>) (map (\<lambda>x. fgt x (quantile ri30 (45 / 100))) ri30)
                                 (map2 (\<lambda>a b. fle a (fmul (Fin (1 / 10)) b)) rs7 ri30))
                      (map2 (\<and>) (map (\<lambda>x. fgt x (Fin 50)) (map2 fsub il fc))
                                 (map (\<lambda>x. flt x (Fin (3 / 10))) st)))
                   (map2 (\<and>) (map (\<lambda>x. fgt x (quantile ri30 (45 / 100))) ri30)
                              (map (\<lambda>x. feq x (Fin 0)) us)))
                (map2 (\<and>) (map (\<lambda>x. fgt x (quantile ri30 (45 / 100))) ri30)
                           (map (\<lambda>x. fle x (Fin 5)) us))))"
  using assms
  by (auto simp: dead_stock_rule_def Let_def bind_err_Inr binop_Inr)

text \<open>The label of one row, from the values of that row.\<close>

lemma label_cell:
  assumes "i < length ri30" "i < length rs7" "i < length st" "i < length il" "i < length fc"
    "i < length us"
  shows "(map2 (\<or>)
            (map2 (\<or>)
               (map2 (\<or>)
                  (map2 (\<and>) (map (\<lambda>x. fgt x p45) ri30)
                             (map2 (\<lambda>a b. fle a (fmul (Fin (1 / 10)) b)) rs7 ri30))
                  (map2 (\<and>) (map (\<lambda>x. fgt x (Fin 50)) (map2 fsub il fc))
                             (map (\<lambda>x. flt x (Fin (3 / 10))) st)))
               (map2 (\<and>) (map (\<lambda>x. fgt x p45) ri30) (map (\<lambda>x. feq x (Fin 0)) us)))
            (map2 (\<and>) (map (\<lambda>x. fgt x p45) ri30) (map (\<lambda>x. fle x (Fin 5)) us))) ! i =
         dead_stock_spec p45 (ri30 ! i) (rs7 ! i) (st ! i) (il ! i) (fc ! i) (us ! i)"
  using assms by (simp add: dead_stock_spec_def Let_def)

lemma label_column:
  assumes "label_dead_stock df = (df', None)"
  shows "\<exists>ri30 rs7 st il fc us label.
           get_num df' ''rolling_inventory_30'' = Inr ri30 \<and>
           get_num df' ''rolling_sales_7'' = Inr rs7 \<and>
           get_num df' ''sell_through_rate'' = Inr st \<and>
           get_num df' ''Inventory Level'' = Inr il \<and>
           get_num df' ''Demand Forecast'' = Inr fc \<and>
           get_num df' ''Units Sold'' = Inr us \<and>
           get_col df' ''dead_stock_label'' = Inr (IntCol label) \<and>
           length label = nrows df' \<and>
           (\<forall>i<nrows df'.
              ((label ! i = 1) =
                 dead_stock_spec (quantile ri30 (45 / 100))
                   (ri30 ! i) (rs7 ! i) (st ! i) (il ! i) (fc ! i) (us ! i)) \<and>
              (label ! i = 0 \<or> label ! i = 1))"
proof -
  from label_dead_stock_Inr[OF assms] obtain lab risk where
    rule: "dead_stock_rule df = Inr lab" and len: "col_len lab = nrows df"
    and df': "df' = with_col ''risk_score'' risk (with_col ''dead_stock_label'' lab df)"
    by blast
  from dead_stock_rule_Inr[OF rule] obtain ri30 rs7 st il fc us where
    g: "get_num df ''rolling_inventory_30'' = Inr ri30"
       "get_num df ''rolling_sales_7'' = Inr rs7"
       "get_num df ''sell_through_rate'' = Inr st"
       "get_num df ''Inventory Level'' = Inr il"
       "get_num df ''Demand Forecast'' = Inr fc"
       "get_num df ''Units Sold'' = Inr us"
    and lab: "lab = IntCol (map (\<lambda>b. if b then 1 else 0)
             (map2 (\<or>)
                (map2 (\<or>)
                   (map2 (\<or>)
                      (map2 (\<and>) (map (\<lambda>x. fgt x (quantile ri30 (45 / 100))) ri30)
                                 (map2 (\<lambda>a b. fle a (fmul (Fin (1 / 10)) b)) rs7 ri30))
                      (map2 (\<and>) (map (\<lambda>x. fgt x (Fin 50)) (map2 fsub il fc))
                                 (map (\<lambda>x. flt x (Fin (3 / 10))) st)))
                   (map2 (\<and>) (map (\<lambda>x. fgt x (quantile ri30 (45 / 100))) ri30)
                              (map (\<lambda>x. feq x (Fin 0)) us)))
                (map2 (\<and>) (map (\<lambda>x. fgt x (quantile ri30 (45 / 100))) ri30)
                           (map (\<lambda>x. fle x (Fin 5)) us))))"
    by blast
  define flags where "flags =
             (map2 (\<or>)
                (map2 (\<or>)
                   (map2 (\<or>)
                      (map2 (\<and>) (map (\<lambda>x. fgt x (quantile ri30 (45 / 100))) ri30)
                                 (map2 (\<lambda>a b. fle a (fmul (Fin (1 / 10)) b)) rs7 ri30))
                      (map2 (\<and>) (map (\<lambda>x. fgt x (Fin 50)) (map2 fsub il fc))
                                 (map (\<lambda>x. flt x (Fin (3 / 10))) st)))
                   (map2 (\<and>) (map (\<lambda>x. fgt x (quantile ri30 (45 / 100))) ri30)
                              (map (\<lambda>x. feq x (Fin 0)) us)))
                (map2 (\<and>) (map (\<lambda>x. fgt x (quantile ri30 (45 / 100))) ri30)
                           (map (\<lambda>x. fle x (Fin 5)) us)))"
  define label :: "int list" where "label = map (\<lambda>b. if b then 1 else 0) flags"
  from lab have lab': "lab = IntCol label" by (simp add: label_def flags_def)
  from len lab' have ll: "length label = nrows df" by simp
  then have lf: "length flags = nrows df" by (simp add: label_def)
  have n': "nrows df' = nrows df" by (simp add: df')
  have keep: "\<And>m. m \<noteq> ''dead_stock_label'' \<Longrightarrow> m \<noteq> ''risk_score'' \<Longrightarrow>
      get_num df' m = get_num df m"
    by (simp add: df' get_num_def get_col_with_col)
  have col: "get_col df' ''dead_stock_label'' = Inr (IntCol label)"
    by (simp add: df' get_col_with_col lab')
  have cell: "((label ! i = 1) =
                 dead_stock_spec (quantile ri30 (45 / 100))
                   (ri30 ! i) (rs7 ! i) (st ! i) (il ! i) (fc ! i) (us ! i)) \<and>
              (label ! i = 0 \<or> label ! i = 1)" if i: "i < nrows df" for i
  proof -
    from lf have "nrows df \<le> length flags" by simp
    then have "nrows df \<le> length ri30 \<and> nrows df \<le> length rs7 \<and> nrows df \<le> length st \<and>
        nrows df \<le> length il \<and> nrows df \<le> length fc \<and> nrows df \<le> length us"
      unfolding flags_def by (simp add: min.bounded_iff)
    with i have b: "i < length ri30" "i < length rs7" "i < length st" "i < length il"
      "i < length fc" "i < length us" by simp_all
    have "flags ! i = dead_stock_spec (quantile ri30 (45 / 100))
                   (ri30 ! i) (rs7 ! i) (st ! i) (il ! i) (fc ! i) (us ! i)"
      unfolding flags_def by (rule label_cell[OF b])
    moreover from i lf have "label ! i = (if flags ! i then 1 else 0)"
      by (simp add: label_def)
    ultimately show ?thesis by simp
  qed
  from keep g have k:
    "get_num df' ''rolling_inventory_30'' = Inr ri30"
    "get_num df' ''rolling_sales_7'' = Inr rs7"
    "get_num df' ''sell_through_rate'' = Inr st"
    "get_num df' ''Inventory Level'' = Inr il"
    "get_num df' ''Demand Forecast'' = Inr fc"
    "get_num df' ''Units Sold'' = Inr us"
    by simp_all
  from ll n' have ll': "length label = nrows df'" by simp
  have cells: "\<forall>i<nrows df'.
      ((label ! i = 1) =
         dead_stock_spec (quantile ri30 (45 / 100))
           (ri30 ! i) (rs7 ! i) (st ! i) (il ! i) (fc ! i) (us ! i)) \<and>
      (label ! i = 0 \<or> label ! i = 1)"
    unfolding n' using cell by blast
  show ?thesis
    by (intro exI[of _ ri30] exI[of _ rs7] exI[of _ st] exI[of _ il] exI[of _ fc] exI[of _ us]
          exI[of _ label] conjI k col ll' cells)
qed


lemma shop_engineered_run: "engineer_features shop_table = (shop_engineered, None)"
  by code_simp

lemma shop_labelled_run: "label_dead_stock shop_engineered = (shop_labelled, None)"
  by code_simp


section \<open>The risk score\<close>

lemma nan_to_num_Fin: "\<exists>r. nan_to_num x = Fin r"
  by (cases x) simp_all

lemma minmax_normalized_Fin:
  "minmax_normalized vs = Inr normed \<Longrightarrow> \<forall>x\<in>set normed. \<exists>r. x = Fin r"
  by (auto simp: minmax_normalized_def Let_def bind_err_Inr nan_to_num_Fin)

lemma max_normalized_Fin:
  "max_normalized vs = Inr normed \<Longrightarrow> \<forall>x\<in>set normed. \<exists>r. x = Fin r"
  by (auto simp: max_normalized_def Let_def bind_err_Inr nan_to_num_Fin)

lemma engineer_features_sell_through_norm:
  assumes "engineer_features df = (df', None)"
  shows "\<exists>vals normed. max_normalized vals = Inr normed \<and> length normed = nrows df \<and>
           get_col df' ''sell_through_rate_norm'' = Inr (NumCol normed)"
proof -
  from engineer_features_Inr[OF assms] obtain grouped where
    r: "run_steps (engineer_steps grouped) df = (df', None)" by blast
  from run_steps_split[OF r, of 10] obtain d1 d2 where
    pre: "run_steps (take 10 (engineer_steps grouped)) df = (d1, None)"
    and st: "(engineer_steps grouped ! 10) d1 = Inr d2"
    and post: "run_steps (drop 11 (engineer_steps grouped)) d2 = (df', None)"
    by (auto simp: length_engineer_steps)
  have n1: "nrows d1 = nrows df"
    using run_steps_preserves[OF pre, of "''Date''"]
    by (simp add: engineer_steps_def preserves_assign preserves_normalize)
  from post have e: "df' = d2" by (simp add: engineer_steps_def)
  from st obtain vals normed where n: "max_normalized vals = Inr normed"
    and len: "length normed = nrows d1"
    and d2: "d2 = with_col ''sell_through_rate_norm'' (NumCol normed) d1"
    by (auto simp: engineer_steps_def normalize_step_Inr)
  with n1 e show ?thesis by (auto simp: get_col_with_col)
qed

text \<open>The columns \<^verbatim>\<open>engineer_features\<close> writes after the two normalised companions do not
  touch them, so both hold finite numbers only.\<close>

lemma engineer_features_norms_finite:
  assumes "engineer_features df = (df', None)"
  shows "\<exists>inv_norm st_norm.
           get_col df' ''rolling_inventory_30_norm'' = Inr (NumCol inv_norm) \<and>
           get_col df' ''sell_through_rate_norm'' = Inr (NumCol st_norm) \<and>
           length inv_norm = nrows df \<and> length st_norm = nrows df \<and>
           (\<forall>x\<in>set inv_norm. \<exists>r. x = Fin r) \<and> (\<forall>x\<in>set st_norm. \<exists>r. x = Fin r)"
proof -
  from engineer_features_inventory_norm[OF assms] obtain v1 n1 where
    a: "minmax_normalized v1 = Inr n1" "length n1 = nrows df"
       "get_col df' ''rolling_inventory_30_norm'' = Inr (NumCol n1)" by blast
  from engineer_features_sell_through_norm[OF assms] obtain v2 n2 where
    b: "max_normalized v2 = Inr n2" "length n2 = nrows df"
       "get_col df' ''sell_through_rate_norm'' = Inr (NumCol n2)" by blast
  from a b minmax_normalized_Fin[OF a(1)] max_normalized_Fin[OF b(1)] show ?thesis
    by blast
qed

lemma risk_score_rule_Inr:
  assumes "risk_score_rule df = Inr risk"
  shows "\<exists>inv_norm st_norm rs7 ri30.
           get_num df ''rolling_inventory_30_norm'' = Inr inv_norm \<and>
           get_num df ''sell_through_rate_norm'' = Inr st_norm \<and>
           get_num df ''rolling_sales_7'' = Inr rs7 \<and>
           get_num df ''rolling_inventory_30'' = Inr ri30 \<and>
           risk = NumCol (map (clip (Fin 0) (Fin 1))
             (map2 fadd
                (map2 fadd (map (fmul (Fin (4 / 10))) inv_norm)
                           (map (\<lambda>x. fmul (Fin (3 / 10)) (fsub (Fin 1) x)) st_norm))
                (map (fmul (Fin (3 / 10)))
                   (map (\<lambda>x. nan_to_num (fsub (Fin 1) (clip (Fin 0) (Fin 1) x)))
                        (map2 fdiv rs7 (map (\<lambda>x. fadd x eps) ri30))))))"
  using assms
  by (auto simp: risk_score_rule_def Let_def bind_err_Inr)

text \<open>The score of one row, from the values of that row.\<close>

lemma risk_cell:
  assumes "i < length inv_norm" "i < length st_norm" "i < length rs7" "i < length ri30"
  shows "map (clip (Fin 0) (Fin 1))
             (map2 fadd
                (map2 fadd (map (fmul (Fin (4 / 10))) inv_norm)
                           (map (\<lambda>x. fmul (Fin (3 / 10)) (fsub (Fin 1) x)) st_norm))
                (map (fmul (Fin (3 / 10)))
                   (map (\<lambda>x. nan_to_num (fsub (Fin 1) (clip (Fin 0) (Fin 1) x)))
                        (map2 fdiv rs7 (map (\<lambda>x. fadd x eps) ri30))))) ! i =
         clip (Fin 0) (Fin 1)
           (fadd (fadd (fmul (Fin (4 / 10)) (inv_norm ! i))
                       (fmul (Fin (3 / 10)) (fsub (Fin 1) (st_norm ! i))))
                 (fmul (Fin (3 / 10))
                    (nan_to_num (fsub (Fin 1)
                       (clip (Fin 0) (Fin 1) (fdiv (rs7 ! i) (fadd (ri30 ! i) eps)))))))"
  using assms by simp

text \<open>With finite normalised inputs the code's sum is the specification's, whatever the
  turnover ratio \<open>t\<close> is, and it lies in the unit interval.\<close>

lemma risk_cell_spec:
  "clip (Fin 0) (Fin 1)
     (fadd (fadd (fmul (Fin (4 / 10)) (Fin x)) (fmul (Fin (3 / 10)) (fsub (Fin 1) (Fin y))))
           (fmul (Fin (3 / 10)) (nan_to_num (fsub (Fin 1) (clip (Fin 0) (Fin 1) t))))) =
   clip (Fin 0) (Fin 1)
     (fadd (fadd (fillna (Fin 0) (fmul (Fin (4 / 10)) (Fin x)))
                 (fillna (Fin 0) (fmul (Fin (3 / 10)) (fsub (Fin 1) (Fin y)))))
           (fillna (Fin 0) (fmul (Fin (3 / 10)) (fsub (Fin 1) (clip (Fin 0) (Fin 1) t)))))"
  by (cases t) (simp_all add: clip_def isnan_def fgt_def fsub_def fillna_def)

lemma clip_unit: "x \<noteq> NaN \<Longrightarrow> \<exists>z. clip (Fin 0) (Fin 1) x = Fin z \<and> 0 \<le> z \<and> z \<le> 1"
  by (cases x) (auto simp: clip_def isnan_def fgt_def)

lemma risk_cell_range:
  "\<exists>z. clip (Fin 0) (Fin 1)
     (fadd (fadd (fmul (Fin (4 / 10)) (Fin x)) (fmul (Fin (3 / 10)) (fsub (Fin 1) (Fin y))))
           (fmul (Fin (3 / 10)) (nan_to_num (fsub (Fin 1) (clip (Fin 0) (Fin 1) t))))) = Fin z \<and>
       0 \<le> z \<and> z \<le> 1"
proof -
  obtain r where r: "nan_to_num (fsub (Fin 1) (clip (Fin 0) (Fin 1) t)) = Fin r"
    using nan_to_num_Fin by blast
  show ?thesis unfolding r by (rule clip_unit) (simp add: fsub_def)
qed

text \<open>
  C3. In the table that \<^verbatim>\<open>engineer_features\<close> followed by \<^verbatim>\<open>label_dead_stock\<close> returns,
  \<^verbatim>\<open>risk_score\<close> of a row is the specification's clipped weighted sum of the values of
  that row, with each \<open>NaN\<close> term counted as 0; it is a number of the unit interval, and
  \<^verbatim>\<open>dead_stock_label\<close> is 0 or 1.
\<close>

theorem risk_score_formula:
  assumes "engineer_features df0 = (df1, None)" and "label_dead_stock df1 = (df2, None)"
  shows "\<exists>inv_norm st_norm rs7 ri30 risk label.
           get_num df2 ''rolling_inventory_30_norm'' = Inr inv_norm \<and>
           get_num df2 ''sell_through_rate_norm'' = Inr st_norm \<and>
           get_num df2 ''rolling_sales_7'' = Inr rs7 \<and>
           get_num df2 ''rolling_inventory_30'' = Inr ri30 \<and>
           get_col df2 ''risk_score'' = Inr (NumCol risk) \<and> length risk = nrows df2 \<and>
           get_col df2 ''dead_stock_label'' = Inr (IntCol label) \<and> length label = nrows df2 \<and>
           (\<forall>i<nrows df2.
              risk ! i = risk_score_spec (inv_norm ! i) (st_norm ! i) (rs7 ! i) (ri30 ! i) \<and>
              (\<exists>x. risk ! i = Fin x \<and> 0 \<le> x \<and> x \<le> 1) \<and>
              (label ! i = 0 \<or> label ! i = 1))"
proof -
  from engineer_features_norms_finite[OF assms(1)] obtain inv_norm st_norm where
    c1: "get_col df1 ''rolling_inventory_30_norm'' = Inr (NumCol inv_norm)"
        "get_col df1 ''sell_through_rate_norm'' = Inr (NumCol st_norm)"
    and fin: "\<forall>x\<in>set inv_norm. \<exists>r. x = Fin r" "\<forall>x\<in>set st_norm. \<exists>r. x = Fin r"
    by blast
  from label_dead_stock_Inr[OF assms(2)] obtain lab rc where
    rule: "risk_score_rule (with_col ''dead_stock_label'' lab df1) = Inr rc"
    and len: "col_len rc = nrows df1"
    and df2: "df2 = with_col ''risk_score'' rc (with_col ''dead_stock_label'' lab df1)"
    by blast
  have n2: "nrows df2 = nrows df1" by (simp add: df2)
  have keep: "\<And>m. m \<noteq> ''dead_stock_label'' \<Longrightarrow> m \<noteq> ''risk_score'' \<Longrightarrow>
      get_num df2 m = get_num df1 m \<and>
      get_num (with_col ''dead_stock_label'' lab df1) m = get_num df1 m"
    by (simp add: df2 get_num_def get_col_with_col)
  from c1 have g1: "get_num df1 ''rolling_inventory_30_norm'' = Inr inv_norm"
    "get_num df1 ''sell_through_rate_norm'' = Inr st_norm"
    by (simp_all add: get_num_def as_float_def)
  from risk_score_rule_Inr[OF rule] keep g1 obtain rs7 ri30 where
    g2: "get_num df1 ''rolling_sales_7'' = Inr rs7" "get_num df1 ''rolling_inventory_30'' = Inr ri30"
    and rc: "rc = NumCol (map (clip (Fin 0) (Fin 1))
             (map2 fadd
                (map2 fadd (map (fmul (Fin (4 / 10))) inv_norm)
                           (map (\<lambda>x. fmul (Fin (3 / 10)) (fsub (Fin 1) x)) st_norm))
                (map (fmul (Fin (3 / 10)))
                   (map (\<lambda>x. nan_to_num (fsub (Fin 1) (clip (Fin 0) (Fin 1) x)))
                        (map2 fdiv rs7 (map (\<lambda>x. fadd x eps) ri30))))))"
    by auto
  define risk where "risk = map (clip (Fin 0) (Fin 1))
             (map2 fadd
                (map2 fadd (map (fmul (Fin (4 / 10))) inv_norm)
                           (map (\<lambda>x. fmul (Fin (3 / 10)) (fsub (Fin 1) x)) st_norm))
                (map (fmul (Fin (3 / 10)))
                   (map (\<lambda>x. nan_to_num (fsub (Fin 1) (clip (Fin 0) (Fin 1) x)))
                        (map2 fdiv rs7 (map (\<lambda>x. fadd x eps) ri30)))))"
  from rc have rc': "rc = NumCol risk" by (simp add: risk_def)
  from len rc' have lr: "length risk = nrows df1" by simp
  from keep g1 g2 have k:
    "get_num df2 ''rolling_inventory_30_norm'' = Inr inv_norm"
    "get_num df2 ''sell_through_rate_norm'' = Inr st_norm"
    "get_num df2 ''rolling_sales_7'' = Inr rs7"
    "get_num df2 ''rolling_inventory_30'' = Inr ri30"
    by simp_all
  have col: "get_col df2 ''risk_score'' = Inr (NumCol risk)"
    by (simp add: df2 get_col_with_col rc')
  from label_column[OF assms(2)] obtain label where
    lc: "get_col df2 ''dead_stock_label'' = Inr (IntCol label)" "length label = nrows df2"
    and l01: "\<forall>i<nrows df2. label ! i = 0 \<or> label ! i = 1"
    by blast
  have cell: "risk ! i = risk_score_spec (inv_norm ! i) (st_norm ! i) (rs7 ! i) (ri30 ! i) \<and>
      (\<exists>x. risk ! i = Fin x \<and> 0 \<le> x \<and> x \<le> 1)" if i: "i < nrows df1" for i
  proof -
    from lr have "nrows df1 \<le> length risk" by simp
    then have "nrows df1 \<le> length inv_norm \<and> nrows df1 \<le> length st_norm \<and>
        nrows df1 \<le> length rs7 \<and> nrows df1 \<le> length ri30"
      unfolding risk_def by (simp add: min.bounded_iff)
    with i have b: "i < length inv_norm" "i < length st_norm" "i < length rs7" "i < length ri30"
      by simp_all
    from b(1) fin(1) obtain x where x: "inv_norm ! i = Fin x" by (metis nth_mem)
    from b(2) fin(2) obtain y where y: "st_norm ! i = Fin y" by (metis nth_mem)
    have r: "risk ! i = clip (Fin 0) (Fin 1)
           (fadd (fadd (fmul (Fin (4 / 10)) (Fin x))
                       (fmul (Fin (3 / 10)) (fsub (Fin 1) (Fin y))))
                 (fmul (Fin (3 / 10))
                    (nan_to_num (fsub (Fin 1)
                       (clip (Fin 0) (Fin 1) (fdiv (rs7 ! i) (fadd (ri30 ! i) eps)))))))"
      unfolding risk_def risk_cell[OF b] x y ..
    have "risk ! i = risk_score_spec (Fin x) (Fin y) (rs7 ! i) (ri30 ! i)"
      unfolding r risk_score_spec_def by (rule risk_cell_spec)
    moreover have "\<exists>z. risk ! i = Fin z \<and> 0 \<le> z \<and> z \<le> 1"
      unfolding r by (rule risk_cell_range)
    ultimately show ?thesis by (simp add: x y)
  qed
  have cells: "\<forall>i<nrows df2.
      risk ! i = risk_score_spec (inv_norm ! i) (st_norm ! i) (rs7 ! i) (ri30 ! i) \<and>
      (\<exists>x. risk ! i = Fin x \<and> 0 \<le> x \<and> x \<le> 1) \<and>
      (label ! i = 0 \<or> label ! i = 1)"
    unfolding n2 using cell l01[unfolded n2] by blast
  from lr n2 have lr': "length risk = nrows df2" by simp
  show ?thesis
    by (intro exI[of _ inv_norm] exI[of _ st_norm] exI[of _ rs7] exI[of _ ri30]
          exI[of _ risk] exI[of _ label] conjI k col lr' lc cells)
qed

theorem risk_score_formula_witness:
  "engineer_features shop_table = (shop_engineered, None) \<and>
   label_dead_stock shop_engineered = (shop_labelled, None) \<and>
   (\<exists>inv_norm st_norm rs7 ri30 risk label.
      get_num shop_labelled ''rolling_inventory_30_norm'' = Inr inv_norm \<and>
      get_num shop_labelled ''sell_through_rate_norm'' = Inr st_norm \<and>
      get_num shop_labelled ''rolling_sales_7'' = Inr rs7 \<and>
      get_num shop_labelled ''rolling_inventory_30'' = Inr ri30 \<and>
      get_col shop_labelled ''risk_score'' = Inr (NumCol risk) \<and>
      length risk = nrows shop_labelled \<and>
      get_col shop_labelled ''dead_stock_label'' = Inr (IntCol label) \<and>
      length label = nrows shop_labelled \<and>
      (\<forall>i<nrows shop_labelled.
         risk ! i = risk_score_spec (inv_norm ! i) (st_norm ! i) (rs7 ! i) (ri30 ! i) \<and>
         (\<exists>x. risk ! i = Fin x \<and> 0 \<le> x \<and> x \<le> 1) \<and>
         (label ! i = 0 \<or> label ! i = 1))) \<and>
   get_col shop_labelled ''risk_score'' =
     Inr (NumCol [Fin (5001 / 66670), Fin (1620007 / 1666675), Fin (1643341 / 1666675)])"
proof -
  have c: "get_col shop_labelled ''risk_score'' =
     Inr (NumCol [Fin (5001 / 66670), Fin (1620007 / 1666675), Fin (1643341 / 1666675)])"
    by code_simp
  show ?thesis
    by (rule conjI[OF shop_engineered_run conjI[OF shop_labelled_run
          conjI[OF risk_score_formula[OF shop_engineered_run shop_labelled_run] c]]])
qed

section \<open>The assembled dataset\<close>

lemma select_cols_Inr:
  "select_cols df names = Inr cs \<Longrightarrow>
     map fst cs = names \<and> (\<forall>n\<in>set names. map_of cs n = map_of (cols df) n)"
proof (induction names arbitrary: cs)
  case Nil
  then show ?case by simp
next
  case (Cons name names)
  from Cons.prems obtain c rest where c: "get_col df name = Inr c"
    and rest: "select_cols df names = Inr rest" and cs: "cs = (name, c) # rest"
    by (auto simp: bind_err_Inr)
  from c have m: "map_of (cols df) name = Some c"
    by (auto simp: get_col_def split: option.splits)
  from Cons.IH[OF rest] cs m show ?case by auto
qed

lemma getitem_Inr:
  assumes "getitem df names = Inr f"
  shows "nrows f = nrows df" and "columns f = names"
    and "\<forall>n\<in>set names. get_col f n = get_col df n"
proof -
  from assms obtain cs where cs: "select_cols df names = Inr cs" and f: "f = df\<lparr>cols := cs\<rparr>"
    by (auto simp: getitem_def bind_err_Inr)
  from f show "nrows f = nrows df" by simp
  from select_cols_Inr[OF cs] f show "columns f = names"
    and "\<forall>n\<in>set names. get_col f n = get_col df n"
    by (simp_all add: columns_def get_col_def)
qed

lemma dt_Inr: "(dt f n = Inr ds) = (get_col f n = Inr (DateCol ds))"
proof (cases "get_col f n")
  case (Inl e)
  then show ?thesis by (simp add: dt_def)
next
  case (Inr c)
  then show ?thesis by (cases c) (simp_all add: dt_def)
qed

lemma columns_with_col:
  "columns (with_col n c f) = (if n \<in> set (columns f) then columns f else columns f @ [n])"
  by (simp add: columns_def with_col_def update_keys)

lemma drop_col_Inr:
  assumes "drop_col f n = Inr g"
  shows "nrows g = nrows f" and "columns g = removeAll n (columns f)"
    and "\<And>m. m \<noteq> n \<Longrightarrow> get_col g m = get_col f m"
proof -
  from assms have g: "g = f\<lparr>cols := AList.delete n (cols f)\<rparr>"
    by (auto simp: drop_col_def split: if_splits)
  from g show "nrows g = nrows f" by simp
  from g show "columns g = removeAll n (columns f)" by (simp add: columns_def delete_keys)
  show "get_col g m = get_col f m" if "m \<noteq> n" for m
    using g that by (simp add: get_col_def)
qed

text \<open>What \<^verbatim>\<open>assemble\<close> returns: the raw view is the table itself, the labels are its
  label column, and the features are its feature columns with the calendar columns in
  place of the date.\<close>

lemma assemble_Inr:
  assumes "assemble df = Inr data"
  shows "raw data = df" and "nrows (features data) = nrows df"
    and "get_col df ''dead_stock_label'' = Inr (labels data)"
    and "columns (features data) = tl feature_cols @ [''day_of_year'', ''month'', ''is_weekend'']"
    and "\<forall>name\<in>set (tl feature_cols). get_col (features data) name = get_col df name"
    and "\<exists>ds. get_col df ''Date'' = Inr (DateCol ds) \<and> length ds = nrows df \<and>
           get_col (features data) ''day_of_year'' = Inr (IntCol (map dayofyear ds)) \<and>
           get_col (features data) ''month'' = Inr (IntCol (map month ds)) \<and>
           get_col (features data) ''is_weekend'' = Inr (BoolCol (map (\<lambda>d. 5 \<le> weekday d) ds))"
proof -
  from assms obtain f0 ds0 f1 ds1 f2 ds2 f3 f4 lab where
    f0: "getitem df feature_cols = Inr f0"
    and ds0: "dt f0 ''Date'' = Inr ds0"
    and f1: "set_col f0 ''day_of_year'' (IntCol (map dayofyear ds0)) = Inr f1"
    and ds1: "dt f1 ''Date'' = Inr ds1"
    and f2: "set_col f1 ''month'' (IntCol (map month ds1)) = Inr f2"
    and ds2: "dt f2 ''Date'' = Inr ds2"
    and f3: "set_col f2 ''is_weekend'' (BoolCol (map (\<lambda>d. 5 \<le> weekday d) ds2)) = Inr f3"
    and f4: "drop_col f3 ''Date'' = Inr f4"
    and lab: "get_col df ''dead_stock_label'' = Inr lab"
    and data: "data = \<lparr>features = f4, labels = lab, raw = df\<rparr>"
    unfolding assemble_def bind_err_Inr by auto
  note g0 = getitem_Inr[OF f0]
  from f1 have f1': "f1 = with_col ''day_of_year'' (IntCol (map dayofyear ds0)) f0"
    and l0: "length ds0 = nrows f0" by (simp_all add: set_col_Inr)
  from f2 have f2': "f2 = with_col ''month'' (IntCol (map month ds1)) f1"
    by (simp add: set_col_Inr)
  from f3 have f3': "f3 = with_col ''is_weekend'' (BoolCol (map (\<lambda>d. 5 \<le> weekday d) ds2)) f2"
    by (simp add: set_col_Inr)
  note g4 = drop_col_Inr[OF f4]
  have d0: "get_col f0 ''Date'' = get_col df ''Date''"
    using g0(3) by (simp add: feature_cols_def)
  from ds0 d0 have date: "get_col df ''Date'' = Inr (DateCol ds0)" by (simp add: dt_Inr)
  from ds1 ds0 have e1: "ds1 = ds0" by (simp add: dt_Inr f1' get_col_with_col)
  from ds2 ds0 have e2: "ds2 = ds0" by (simp add: dt_Inr f2' f1' get_col_with_col)
  show "raw data = df" by (simp add: data)
  show "nrows (features data) = nrows df"
    by (simp add: data g4(1) f3' f2' f1' g0(1))
  show "get_col df ''dead_stock_label'' = Inr (labels data)" by (simp add: data lab)
  show "columns (features data) = tl feature_cols @ [''day_of_year'', ''month'', ''is_weekend'']"
    by (simp add: data g4(2) f3' f2' f1' columns_with_col g0(2))
       (simp add: feature_cols_def NUMERIC_FEATURES_def BOOLEAN_FEATURES_def
          CATEGORICAL_FEATURES_def)
  show "\<forall>name\<in>set (tl feature_cols). get_col (features data) name = get_col df name"
  proof
    fix name assume n: "name \<in> set (tl feature_cols)"
    then have ne: "name \<noteq> ''Date''" "name \<noteq> ''day_of_year''" "name \<noteq> ''month''"
      "name \<noteq> ''is_weekend''"
      by (auto simp: feature_cols_def NUMERIC_FEATURES_def BOOLEAN_FEATURES_def
          CATEGORICAL_FEATURES_def)
    from n have "name \<in> set feature_cols" by (simp add: feature_cols_def)
    with g0(3) have "get_col f0 name = get_col df name" by simp
    with ne show "get_col (features data) name = get_col df name"
      by (simp add: data g4(3) f3' f2' f1' get_col_with_col)
  qed
  have "get_col (features data) ''day_of_year'' = Inr (IntCol (map dayofyear ds0)) \<and>
        get_col (features data) ''month'' = Inr (IntCol (map month ds0)) \<and>
        get_col (features data) ''is_weekend'' = Inr (BoolCol (map (\<lambda>d. 5 \<le> weekday d) ds0))"
    by (simp add: data g4(3) f3' f2' f1' get_col_with_col e1 e2)
  with date l0 g0(1)
  show "\<exists>ds. get_col df ''Date'' = Inr (DateCol ds) \<and> length ds = nrows df \<and>
           get_col (features data) ''day_of_year'' = Inr (IntCol (map dayofyear ds)) \<and>
           get_col (features data) ''month'' = Inr (IntCol (map month ds)) \<and>
           get_col (features data) ''is_weekend'' = Inr (BoolCol (map (\<lambda>d. 5 \<le> weekday d) ds))"
    by (intro exI[of _ ds0]) simp
qed

lemma prepare_dataset_Inr:
  assumes "prepare_dataset env source = Inr data"
  shows "\<exists>df0 df1 df2. load_data env source = Inr df0 \<and>
           engineer_features df0 = (df1, None) \<and> label_dead_stock df1 = (df2, None) \<and>
           assemble df2 = Inr data"
proof -
  from assms obtain df0 where l: "load_data env source = Inr df0"
    and r: "(case engineer_features df0 of
               (df1, Some e) \<Rightarrow> Inl e
             | (df1, None) \<Rightarrow>
                 (case label_dead_stock df1 of
                    (df2, Some e) \<Rightarrow> Inl e
                  | (df2, None) \<Rightarrow> assemble df2)) = Inr data"
    by (auto simp: prepare_dataset_def bind_err_Inr)
  obtain df1 e1 where e: "engineer_features df0 = (df1, e1)" by (cases "engineer_features df0")
  with r have e1: "e1 = None" by (cases e1) simp_all
  obtain df2 e2 where lb: "label_dead_stock df1 = (df2, e2)" by (cases "label_dead_stock df1")
  with r e e1 have e2: "e2 = None" by (cases e2) simp_all
  from r e e1 lb e2 have "assemble df2 = Inr data" by simp
  with l e e1 lb e2 show ?thesis by blast
qed

text \<open>
  C4. When \<^verbatim>\<open>prepare_dataset\<close> returns, its three views have the same number of rows in
  the same order: \<open>raw\<close> is the loaded, engineered and labelled table, \<open>labels\<close> is the
  label column of \<open>raw\<close>, every feature column is the column of \<open>raw\<close> of the same
  name, and the three calendar columns are computed row by row from the date column of
  \<open>raw\<close>.
\<close>

theorem prepared_views_aligned:
  assumes "prepare_dataset env source = Inr data"
  shows "nrows (features data) = nrows (raw data) \<and>
         col_len (labels data) = nrows (raw data) \<and>
         get_col (raw data) ''dead_stock_label'' = Inr (labels data) \<and>
         columns (features data) =
           tl feature_cols @ [''day_of_year'', ''month'', ''is_weekend''] \<and>
         (\<forall>name\<in>set (tl feature_cols).
            get_col (features data) name = get_col (raw data) name) \<and>
         (\<exists>ds. get_col (raw data) ''Date'' = Inr (DateCol ds) \<and> length ds = nrows (raw data) \<and>
            get_col (features data) ''day_of_year'' = Inr (IntCol (map dayofyear ds)) \<and>
            get_col (features data) ''month'' = Inr (IntCol (map month ds)) \<and>
            get_col (features data) ''is_weekend'' =
              Inr (BoolCol (map (\<lambda>d. 5 \<le> weekday d) ds))) \<and>
         (\<exists>df0 df1. load_data env source = Inr df0 \<and> engineer_features df0 = (df1, None) \<and>
            label_dead_stock df1 = (raw data, None))"
proof -
  from prepare_dataset_Inr[OF assms] obtain df0 df1 df2 where
    l: "load_data env source = Inr df0" and e: "engineer_features df0 = (df1, None)"
    and lb: "label_dead_stock df1 = (df2, None)" and a: "assemble df2 = Inr data"
    by blast
  note v = assemble_Inr[OF a]
  from label_column[OF lb] v(3) have "col_len (labels data) = nrows df2" by auto
  with v l e lb show ?thesis by (simp only: v(1)) blast
qed

theorem prepared_views_aligned_witness:
  "prepare_dataset env0 (FromTable inventory_table) =
     Inr (projr (prepare_dataset env0 (FromTable inventory_table))) \<and>
   nrows (features (projr (prepare_dataset env0 (FromTable inventory_table)))) =
     nrows (raw (projr (prepare_dataset env0 (FromTable inventory_table)))) \<and>
   col_len (labels (projr (prepare_dataset env0 (FromTable inventory_table)))) =
     nrows (raw (projr (prepare_dataset env0 (FromTable inventory_table)))) \<and>
   get_col (raw (projr (prepare_dataset env0 (FromTable inventory_table)))) ''dead_stock_label'' =
     Inr (labels (projr (prepare_dataset env0 (FromTable inventory_table)))) \<and>
   get_col (features (projr (prepare_dataset env0 (FromTable inventory_table)))) ''Units Sold'' =
     get_col (raw (projr (prepare_dataset env0 (FromTable inventory_table)))) ''Units Sold'' \<and>
   labels (projr (prepare_dataset env0 (FromTable inventory_table))) = IntCol [0, 1, 1] \<and>
   get_col (raw (projr (prepare_dataset env0 (FromTable inventory_table)))) ''Units Sold'' =
     Inr (NumCol [Fin 15, Fin 8, Fin 0])"
proof -
  have h: "prepare_dataset env0 (FromTable inventory_table) =
     Inr (projr (prepare_dataset env0 (FromTable inventory_table)))"
    by code_simp
  have c: "labels (projr (prepare_dataset env0 (FromTable inventory_table))) = IntCol [0, 1, 1] \<and>
     get_col (raw (projr (prepare_dataset env0 (FromTable inventory_table)))) ''Units Sold'' =
       Inr (NumCol [Fin 15, Fin 8, Fin 0])"
    by code_simp
  have n: "''Units Sold'' \<in> set (tl feature_cols)"
    by (simp add: feature_cols_def NUMERIC_FEATURES_def)
  note t = prepared_views_aligned[OF h]
  from t n have "get_col (features (projr (prepare_dataset env0 (FromTable inventory_table))))
      ''Units Sold'' =
     get_col (raw (projr (prepare_dataset env0 (FromTable inventory_table)))) ''Units Sold''"
    by blast
  with t h c show ?thesis by blast
qed

section \<open>Selecting rows\<close>

lemma col_len_take_col [simp]: "col_len (take_col idx c) = length idx"
  by (cases c) simp_all




lemma nrows_take_rows [simp]: "nrows (take_rows idx d) = length idx"
  by (simp add: take_rows_def)

lemma columns_take_rows [simp]: "columns (take_rows idx d) = columns d"
  by (simp add: take_rows_def columns_def) (induction "cols d"; auto)









section \<open>The chronological split\<close>







section \<open>Mutation of the frames\<close>

text \<open>Steps that preserve a column leave it unchanged also when a later step raises.\<close>

lemma run_steps_preserves_any:
  "run_steps ss df = (df', err) \<Longrightarrow> \<forall>s\<in>set ss. preserves s m \<Longrightarrow>
     nrows df' = nrows df \<and> get_col df' m = get_col df m"
proof (induction ss arbitrary: df)
  case Nil
  then show ?case by simp
next
  case (Cons s ss)
  show ?case
  proof (cases "s df")
    case (Inl e)
    with Cons.prems(1) show ?thesis by simp
  next
    case (Inr d)
    with Cons.prems(1) have r: "run_steps ss d = (df', err)" by simp
    from Cons.prems(2) Inr have "nrows d = nrows df \<and> get_col d m = get_col df m"
      by (simp add: preserves_def)
    moreover from Cons.IH[OF r] Cons.prems(2)
    have "nrows df' = nrows d \<and> get_col df' m = get_col d m" by simp
    ultimately show ?thesis by simp
  qed
qed

lemma engineer_features_frame:
  assumes "engineer_features df = (df', err)" and "m \<notin> set engineered_cols"
  shows "nrows df' = nrows df \<and> get_col df' m = get_col df m"
proof (cases "groupby df [''Store ID'', ''Product ID'']")
  case (Inl e)
  with assms(1) show ?thesis by (simp add: engineer_features_def)
next
  case (Inr grouped)
  with assms(1) have r: "run_steps (engineer_steps grouped) df = (df', err)"
    by (simp add: engineer_features_def)
  from assms(2) have "\<forall>s\<in>set (engineer_steps grouped). preserves s m"
    by (auto simp: engineered_cols_def engineer_steps_def intro!: preserves_assign preserves_normalize)
  with r show ?thesis by (rule run_steps_preserves_any)
qed

lemma label_dead_stock_frame:
  assumes "label_dead_stock df = (df', err)" and "m \<notin> set label_cols"
  shows "nrows df' = nrows df \<and> get_col df' m = get_col df m"
proof -
  from assms(2) have "\<forall>s\<in>set [assign ''dead_stock_label'' dead_stock_rule,
      assign ''risk_score'' risk_score_rule]. preserves s m"
    by (auto simp: label_cols_def intro!: preserves_assign)
  with assms(1) show ?thesis
    unfolding label_dead_stock_def by (rule run_steps_preserves_any)
qed

text \<open>An in-place function changes the object it is given and nothing else, and returns
  the reference it was given.\<close>

lemma in_place_frame:
  assumes "in_place f h r = (h', res)"
  shows "objs h' = (objs h)(r := fst (f (objs h r)))" and "next_ref h' = next_ref h"
    and "res = (case snd (f (objs h r)) of None \<Rightarrow> Inr r | Some e \<Rightarrow> Inl e)"
  using assms by (auto simp: in_place_def split: prod.splits)

lemma in_place_ref: "in_place f h r = (h', Inr x) \<Longrightarrow> x = r"
  by (auto simp: in_place_def split: prod.splits option.splits)

text \<open>\<^verbatim>\<open>load_data\<close> works on a new object: the objects that exist stay as they are.\<close>

lemma load_data_obj_frame:
  assumes "load_data_obj env h source = (h1, res)"
  shows "(\<forall>r'<next_ref h. objs h1 r' = objs h r') \<and> next_ref h \<le> next_ref h1 \<and>
         (\<forall>r1. res = Inr r1 \<longrightarrow> r1 = next_ref h)"
proof (cases source)
  case (FromPath path)
  show ?thesis
  proof (cases "read_csv env path")
    case (Inl e)
    with assms FromPath show ?thesis by (auto simp: load_data_obj_def)
  next
    case (Inr df)
    with assms FromPath have ip: "in_place (run_steps [sort_step])
        (h\<lparr>objs := (objs h)(next_ref h := df), next_ref := Suc (next_ref h)\<rparr>) (next_ref h) = (h1, res)"
      by (simp add: load_data_obj_def alloc_def)
    from in_place_frame(1,2)[OF ip] in_place_ref[of _ _ _ h1] ip show ?thesis by auto
  qed
next
  case (FromTable r)
  with assms have ip: "in_place (run_steps [parse_date_step env, sort_step])
      (h\<lparr>objs := (objs h)(next_ref h := objs h r), next_ref := Suc (next_ref h)\<rparr>) (next_ref h) = (h1, res)"
    by (simp add: load_data_obj_def alloc_def)
  from in_place_frame(1,2)[OF ip] in_place_ref[of _ _ _ h1] ip show ?thesis by auto
next
  case (Unsupported ty)
  with assms show ?thesis by (auto simp: load_data_obj_def)
qed

lemma prepare_dataset_obj_frame:
  assumes "prepare_dataset_obj env h source = (h', res)" and "r' < next_ref h"
  shows "objs h' r' = objs h r'"
proof -
  obtain h1 res1 where l: "load_data_obj env h source = (h1, res1)"
    by (cases "load_data_obj env h source")
  note f1 = load_data_obj_frame[OF l]
  show ?thesis
  proof (cases res1)
    case (Inl e)
    with assms l f1 show ?thesis by (simp add: prepare_dataset_obj_def)
  next
    case (Inr r1)
    with f1 have r1: "r1 = next_ref h" by simp
    obtain h2 res2 where e: "engineer_features_obj h1 r1 = (h2, res2)"
      by (cases "engineer_features_obj h1 r1")
    from e have e': "in_place engineer_features h1 r1 = (h2, res2)"
      by (simp add: engineer_features_obj_def)
    from in_place_frame(1)[OF e'] r1 assms(2) f1 have o2: "objs h2 r' = objs h r'" by simp
    show ?thesis
    proof (cases res2)
      case (Inl e2)
      with assms(1) l Inr e o2 show ?thesis by (simp add: prepare_dataset_obj_def)
    next
      case (Inr r2)
      with e' have r2: "r2 = r1" using in_place_ref by blast
      obtain h3 res3 where lb: "label_dead_stock_obj h2 r2 = (h3, res3)"
        by (cases "label_dead_stock_obj h2 r2")
      from lb have lb': "in_place label_dead_stock h2 r2 = (h3, res3)"
        by (simp add: label_dead_stock_obj_def)
      from in_place_frame(1)[OF lb'] r2 r1 assms(2) o2 have o3: "objs h3 r' = objs h r'" by simp
      from assms(1) l \<open>res1 = Inr r1\<close> e Inr lb have "h' = h3"
        by (cases res3) (simp_all add: prepare_dataset_obj_def)
      with o3 show ?thesis by simp
    qed
  qed
qed

text \<open>
  C6, as the code has it. \<^verbatim>\<open>engineer_features\<close> and \<^verbatim>\<open>label_dead_stock\<close> assign their
  columns to the table object they are given and return that same object. They change no
  other object, and in the object they are given they keep the row count and every column
  that is not one of those they assign. The caller of \<^verbatim>\<open>prepare_dataset\<close> sees its own
  tables unchanged, because \<^verbatim>\<open>load_data\<close> copies an in-memory source and the two stages
  work on that copy.
\<close>

theorem stages_assign_in_place:
  "(\<forall>h r h' res m.
      engineer_features_obj h r = (h', res) \<longrightarrow>
        (\<forall>r'. r' \<noteq> r \<longrightarrow> objs h' r' = objs h r') \<and> next_ref h' = next_ref h \<and>
        (\<forall>x. res = Inr x \<longrightarrow> x = r) \<and>
        objs h' r = fst (engineer_features (objs h r)) \<and>
        nrows (objs h' r) = nrows (objs h r) \<and>
        (m \<notin> set engineered_cols \<longrightarrow> get_col (objs h' r) m = get_col (objs h r) m)) \<and>
   (\<forall>h r h' res m.
      label_dead_stock_obj h r = (h', res) \<longrightarrow>
        (\<forall>r'. r' \<noteq> r \<longrightarrow> objs h' r' = objs h r') \<and> next_ref h' = next_ref h \<and>
        (\<forall>x. res = Inr x \<longrightarrow> x = r) \<and>
        objs h' r = fst (label_dead_stock (objs h r)) \<and>
        nrows (objs h' r) = nrows (objs h r) \<and>
        (m \<notin> set label_cols \<longrightarrow> get_col (objs h' r) m = get_col (objs h r) m)) \<and>
   (\<forall>env h source h' res r'.
      prepare_dataset_obj env h source = (h', res) \<and> r' < next_ref h \<longrightarrow>
        objs h' r' = objs h r')"
proof (intro conjI allI impI)
  fix h r h' res and m :: string
  assume a: "engineer_features_obj h r = (h', res)"
  then have ip: "in_place engineer_features h r = (h', res)"
    by (simp add: engineer_features_obj_def)
  note f = in_place_frame[OF ip]
  show "next_ref h' = next_ref h" by (rule f(2))
  show "objs h' r = fst (engineer_features (objs h r))" by (simp add: f(1))
  show "nrows (objs h' r) = nrows (objs h r)"
    using engineer_features_frame[of "objs h r" _ _ "''Date''"]
    by (cases "engineer_features (objs h r)") (simp add: f(1) engineered_cols_def)
  { fix r' assume "r' \<noteq> r" then show "objs h' r' = objs h r'" by (simp add: f(1)) }
  { fix x assume "res = Inr x" with ip show "x = r" using in_place_ref by blast }
  { assume "m \<notin> set engineered_cols"
    then show "get_col (objs h' r) m = get_col (objs h r) m"
      using engineer_features_frame[of "objs h r" _ _ m]
      by (cases "engineer_features (objs h r)") (simp add: f(1)) }
next
  fix h r h' res and m :: string
  assume a: "label_dead_stock_obj h r = (h', res)"
  then have ip: "in_place label_dead_stock h r = (h', res)"
    by (simp add: label_dead_stock_obj_def)
  note f = in_place_frame[OF ip]
  show "next_ref h' = next_ref h" by (rule f(2))
  show "objs h' r = fst (label_dead_stock (objs h r))" by (simp add: f(1))
  show "nrows (objs h' r) = nrows (objs h r)"
    using label_dead_stock_frame[of "objs h r" _ _ "''Date''"]
    by (cases "label_dead_stock (objs h r)") (simp add: f(1) label_cols_def)
  { fix r' assume "r' \<noteq> r" then show "objs h' r' = objs h r'" by (simp add: f(1)) }
  { fix x assume "res = Inr x" with ip show "x = r" using in_place_ref by blast }
  { assume "m \<notin> set label_cols"
    then show "get_col (objs h' r) m = get_col (objs h r) m"
      using label_dead_stock_frame[of "objs h r" _ _ m]
      by (cases "label_dead_stock (objs h r)") (simp add: f(1)) }
next
  fix env h source h' res r'
  assume "prepare_dataset_obj env h source = (h', res) \<and> r' < next_ref h"
  then show "objs h' r' = objs h r'" using prepare_dataset_obj_frame by blast
qed

theorem stages_assign_in_place_witness:
  "get_col (objs (fst (engineer_features_obj (single_heap no_sale_table) 0)) 0) ''Units Sold'' =
     get_col (objs (single_heap no_sale_table) 0) ''Units Sold'' \<and>
   objs (fst (engineer_features_obj (single_heap no_sale_table) 0)) 1 =
     objs (single_heap no_sale_table) 1 \<and>
   get_col (objs (fst (label_dead_stock_obj (single_heap shop_engineered) 0)) 0) ''Units Sold'' =
     get_col (objs (single_heap shop_engineered) 0) ''Units Sold'' \<and>
   objs (fst (prepare_dataset_obj env0 (single_heap inventory_table) (FromTable 0))) 0 =
     inventory_table \<and>
   get_col (objs (single_heap no_sale_table) 0) ''Units Sold'' = Inr (NumCol [Fin 0])"
proof -
  note t = stages_assign_in_place
  have e: "engineer_features_obj (single_heap no_sale_table) 0 =
      (fst (engineer_features_obj (single_heap no_sale_table) 0),
       snd (engineer_features_obj (single_heap no_sale_table) 0))" by simp
  have l: "label_dead_stock_obj (single_heap shop_engineered) 0 =
      (fst (label_dead_stock_obj (single_heap shop_engineered) 0),
       snd (label_dead_stock_obj (single_heap shop_engineered) 0))" by simp
  have p: "prepare_dataset_obj env0 (single_heap inventory_table) (FromTable 0) =
      (fst (prepare_dataset_obj env0 (single_heap inventory_table) (FromTable 0)),
       snd (prepare_dataset_obj env0 (single_heap inventory_table) (FromTable 0)))" by simp
  have u1: "''Units Sold'' \<notin> set engineered_cols" by (simp add: engineered_cols_def)
  have u2: "''Units Sold'' \<notin> set label_cols" by (simp add: label_cols_def)
  have n: "0 < next_ref (single_heap inventory_table)" by (simp add: single_heap_def)
  have o: "objs (single_heap inventory_table) 0 = inventory_table" by (simp add: single_heap_def)
  have c: "get_col (objs (single_heap no_sale_table) 0) ''Units Sold'' = Inr (NumCol [Fin 0])"
    by (simp add: single_heap_def no_sale_table_def get_col_def)
  from t e u1 have 1: "get_col (objs (fst (engineer_features_obj (single_heap no_sale_table) 0)) 0)
      ''Units Sold'' = get_col (objs (single_heap no_sale_table) 0) ''Units Sold''"
    by blast
  from t e have 2: "objs (fst (engineer_features_obj (single_heap no_sale_table) 0)) 1 =
     objs (single_heap no_sale_table) 1"
    by (metis zero_neq_one)
  from t l u2 have 3: "get_col (objs (fst (label_dead_stock_obj (single_heap shop_engineered) 0)) 0)
      ''Units Sold'' = get_col (objs (single_heap shop_engineered) 0) ''Units Sold''"
    by blast
  from t p n have "objs (fst (prepare_dataset_obj env0 (single_heap inventory_table) (FromTable 0))) 0 =
     objs (single_heap inventory_table) 0"
    by blast
  with o have 4: "objs (fst (prepare_dataset_obj env0 (single_heap inventory_table) (FromTable 0))) 0 =
     inventory_table" by simp
  from 1 2 3 4 c show ?thesis by (intro conjI)
qed

theorem stages_mutate_input_counterexample:
  "get_col (objs (single_heap no_sale_table) 0) ''days_since_sale'' =
     Inl (KeyError ''days_since_sale'') \<and>
   snd (engineer_features_obj (single_heap no_sale_table) 0) = Inr 0 \<and>
   get_col (objs (fst (engineer_features_obj (single_heap no_sale_table) 0)) 0) ''days_since_sale'' =
     Inr (IntCol [1]) \<and>
   objs (fst (engineer_features_obj (single_heap no_sale_table) 0)) 0 \<noteq>
     objs (single_heap no_sale_table) 0 \<and>
   get_col (objs (single_heap shop_engineered) 0) ''dead_stock_label'' =
     Inl (KeyError ''dead_stock_label'') \<and>
   snd (label_dead_stock_obj (single_heap shop_engineered) 0) = Inr 0 \<and>
   get_col (objs (fst (label_dead_stock_obj (single_heap shop_engineered) 0)) 0)
     ''dead_stock_label'' = Inr (IntCol [0, 1, 1]) \<and>
   objs (fst (label_dead_stock_obj (single_heap shop_engineered) 0)) 0 \<noteq>
     objs (single_heap shop_engineered) 0"
  by code_simp

section \<open>The pipeline on objects and on values\<close>

text \<open>The functions on frame values used above return what the functions on frame
  objects return.\<close>

lemma run_steps_two:
  "run_steps [a, b] d = (d', err) \<Longrightarrow>
     bind_err (a d) b = (case err of None \<Rightarrow> Inr d' | Some e \<Rightarrow> Inl e)"
  by (cases "a d"; cases "b (projr (a d))") auto

lemma run_steps_one:
  "run_steps [b] d = (d', err) \<Longrightarrow> b d = (case err of None \<Rightarrow> Inr d' | Some e \<Rightarrow> Inl e)"
  by (cases "b d") auto

lemma load_data_obj_result:
  assumes "load_data_obj env h source = (h1, res)"
  shows "load_data env (map_source (objs h) source) =
           (case res of Inl e \<Rightarrow> Inl e | Inr r1 \<Rightarrow> Inr (objs h1 r1))"
proof (cases source)
  case (FromPath path)
  show ?thesis
  proof (cases "read_csv env path")
    case (Inl e)
    with assms FromPath show ?thesis by (auto simp: load_data_obj_def load_data_def)
  next
    case (Inr df)
    with assms FromPath have ip: "in_place (run_steps [sort_step])
        (h\<lparr>objs := (objs h)(next_ref h := df), next_ref := Suc (next_ref h)\<rparr>) (next_ref h) = (h1, res)"
      by (simp add: load_data_obj_def alloc_def)
    obtain d' err where r: "run_steps [sort_step] df = (d', err)"
      by (cases "run_steps [sort_step] df")
    from in_place_frame(1,3)[OF ip] r run_steps_one[OF r] FromPath Inr show ?thesis
      by (cases err) (simp_all add: load_data_def)
  qed
next
  case (FromTable r)
  with assms have ip: "in_place (run_steps [parse_date_step env, sort_step])
      (h\<lparr>objs := (objs h)(next_ref h := objs h r), next_ref := Suc (next_ref h)\<rparr>) (next_ref h) = (h1, res)"
    by (simp add: load_data_obj_def alloc_def)
  obtain d' err where r: "run_steps [parse_date_step env, sort_step] (objs h r) = (d', err)"
    by (cases "run_steps [parse_date_step env, sort_step] (objs h r)")
  from in_place_frame(1,3)[OF ip] r run_steps_two[OF r] FromTable show ?thesis
    by (cases err) (simp_all add: load_data_def)
next
  case (Unsupported ty)
  with assms show ?thesis by (auto simp: load_data_obj_def load_data_def)
qed

lemma prepare_dataset_obj_result:
  "snd (prepare_dataset_obj env h source) = prepare_dataset env (map_source (objs h) source)"
proof -
  obtain h1 res1 where l: "load_data_obj env h source = (h1, res1)"
    by (cases "load_data_obj env h source")
  note r1 = load_data_obj_result[OF l]
  show ?thesis
  proof (cases res1)
    case (Inl e)
    with l r1 show ?thesis by (simp add: prepare_dataset_obj_def prepare_dataset_def)
  next
    case (Inr r)
    obtain df1 e1 where e: "engineer_features (objs h1 r) = (df1, e1)"
      by (cases "engineer_features (objs h1 r)")
    show ?thesis
    proof (cases e1)
      case (Some x)
      with l r1 Inr e show ?thesis
        by (simp add: prepare_dataset_obj_def prepare_dataset_def engineer_features_obj_def
            in_place_def)
    next
      case None
      obtain df2 e2 where lb: "label_dead_stock df1 = (df2, e2)"
        by (cases "label_dead_stock df1")
      with l r1 Inr e None show ?thesis
        by (cases e2)
           (simp_all add: prepare_dataset_obj_def prepare_dataset_def engineer_features_obj_def
              label_dead_stock_obj_def in_place_def)
    qed
  qed
qed

end
